theory Spec2Isabelle
  imports Complex_Main "HOL-Library.Multiset"
begin

section \<open>AlphaZero Nano agent (agent.py): data model\<close>

text \<open>
  The agent of \<^verbatim>\<open>agent.py\<close> drives three collaborators that live outside the file:
  the game rules (\<^verbatim>\<open>Game\<close> and the state objects it hands out), the tree search
  (\<^verbatim>\<open>apv_mcts\<close>) and the tensor library (networks, optimizer, random numbers).
  They are parameters of the model, collected in two records of functions.

  Conventions of the model.
  \<^item> A Python number that the code only compares (a game result, the threshold) is
    the \<open>real\<close> it denotes. The one arithmetic operation of the file, the true
    division of the win tally by the game count, is the division of two Python integers:
    it yields the double nearest to the quotient, and is modelled so.
  \<^item> A value is falsy in Python exactly when it is \<open>0\<close>.
  \<^item> A network is a mutable object. The objects live in a store, a list indexed by
    handle (address); \<^verbatim>\<open>copy.deepcopy\<close> allocates a new cell.
  \<^item> Whatever the libraries keep hidden (random generators, optimizer moments) is one
    value \<open>hidden\<close> that every such call receives and returns.
  \<^item> A loop that may not end is a \<^theory_text>\<open>partial_function\<close> in the option
    monad: \<open>None\<close> means that the call never returns.
  \<^item> A raised exception is \<open>Inl\<close> of a result, a normal return is \<open>Inr\<close>.
\<close>

datatype py_error = ZeroDivisionError | OverflowError | ValueError

text \<open>
  The game collaborator. \<open>getInitBoard\<close>, \<open>getGameEnded\<close> and \<open>getActionSize\<close> are
  the methods called on \<^verbatim>\<open>self.game\<close>; \<open>state_getGameEnded\<close> and
  \<open>state_getNextState\<close> are the methods called on a state object
  (\<^verbatim>\<open>game_state.getGameEnded()\<close>, \<^verbatim>\<open>game_state.getNextState(game_state, player, action)\<close>);
  \<open>state_shape\<close> is the array shape under which \<^verbatim>\<open>torch.tensor\<close> sees a state.
  The class \<^verbatim>\<open>Game\<close> is not part of agent.py, so its methods are parameters. They
  are pure functions: the game is a rule oracle and no state is mutated in place.
\<close>

record 'b Game =
  getInitBoard :: 'b
  getGameEnded :: "'b \<Rightarrow> int \<Rightarrow> real"
  getActionSize :: int
  state_getGameEnded :: "'b \<Rightarrow> real"
  state_getNextState :: "'b \<Rightarrow> int \<Rightarrow> int \<Rightarrow> 'b \<times> int"
  state_shape :: "'b \<Rightarrow> nat list"

text \<open>
  The library collaborators. A network object has type \<open>'n\<close>, the hidden library state
  type \<open>'r\<close>.
  \<^item> \<open>predict\<close>: \<^verbatim>\<open>network.predict(game_state)\<close>, reading the network only;
  \<^item> \<open>predict_batch\<close>: the same method on a mini-batch of states;
  \<^item> \<open>argmax\<close>: the index returned by \<^verbatim>\<open>torch.max(policy, dim=-1)\<close>;
  \<^item> \<open>apv_mcts\<close>: the search, with the arguments of the call in \<^verbatim>\<open>self_play\<close>;
  \<^item> \<open>random_choice\<close>: \<^verbatim>\<open>np.random.choice(np.arange(n), p=policy)\<close>;
  \<^item> \<open>randperm\<close>: the order in which a shuffling loader visits \<open>n\<close> rows;
  \<^item> \<open>backward\<close>: both losses, their sum and \<^verbatim>\<open>combined_loss.backward()\<close>, which
    leaves gradients in the network that made the prediction;
  \<^item> \<open>zero_grad\<close>, \<open>opt_step\<close>: the optimizer acting on one network it was built over.
\<close>

record ('b, 'n, 'r) Torch =
  predict :: "'n \<Rightarrow> 'b \<Rightarrow> 'r \<Rightarrow> (real list \<times> real) \<times> 'r"
  predict_batch :: "'n \<Rightarrow> 'b list \<Rightarrow> 'r \<Rightarrow> (real list list \<times> real list) \<times> 'r"
  argmax :: "real list \<Rightarrow> int"
  apv_mcts :: "'b Game \<Rightarrow> 'b \<Rightarrow> 'n \<Rightarrow> int \<Rightarrow> real \<Rightarrow> 'r \<Rightarrow> real list \<times> 'r"
  random_choice :: "int \<Rightarrow> real list \<Rightarrow> 'r \<Rightarrow> int \<times> 'r"
  randperm :: "nat \<Rightarrow> 'r \<Rightarrow> nat list \<times> 'r"
  backward :: "real list list \<Rightarrow> real list list \<Rightarrow> real list \<Rightarrow> real list \<Rightarrow> 'n \<Rightarrow> 'n"
  zero_grad :: "'n \<Rightarrow> 'n"
  opt_step :: "'n \<Rightarrow> 'r \<Rightarrow> 'n \<times> 'r"

text \<open>The mutable world: the store of network objects and the hidden library state.\<close>

record ('n, 'r) world =
  heap :: "'n list"
  hidden :: 'r

text \<open>
  The fields set by \<^verbatim>\<open>__init__\<close>. The optimizer is represented by the handles of the
  networks whose parameters it was constructed over.
\<close>

record 'b AlphaZeroNano =
  c_parameter :: real
  num_simulations :: int
  optimizer :: "nat list"
  game :: "'b Game"

section \<open>True division of Python integers\<close>

text \<open>\<^verbatim>\<open>n.bit_length()\<close>: the number of binary digits of a positive \<open>n\<close>.\<close>

function bit_length :: "int \<Rightarrow> int" where
  "bit_length n = (if n \<le> 0 then 0 else 1 + bit_length (n div 2))"
  by pat_completeness auto
termination
  by (relation "measure nat") auto

declare bit_length.simps [simp del]

text \<open>
  The integer nearest to \<open>n / d\<close> for \<open>n \<ge> 0\<close> and \<open>d > 0\<close>, a tie going to the
  even neighbour.
\<close>

definition round_half_even :: "int \<Rightarrow> int \<Rightarrow> int" where
  "round_half_even n d =
     (let q = n div d; r = n mod d
      in if 2 * r < d then q
         else if d < 2 * r then q + 1
         else if even q then q else q + 1)"

text \<open>
  The exponent \<open>e\<close> of the unit in the last place of the double nearest to \<open>n / d\<close>:
  the one with \<open>2 ^ 52 \<le> n / (d * 2 ^ e) < 2 ^ 53\<close>, but not below \<open>-1074\<close>, where
  the subnormal doubles lie.
\<close>

definition double_exponent :: "int \<Rightarrow> int \<Rightarrow> int" where
  "double_exponent n d =
     (let s = bit_length n - bit_length d;
          e = (if d * 2 ^ nat s \<le> n * 2 ^ nat (- s) then s - 52 else s - 53)
      in max e (- 1074))"

text \<open>The double nearest to \<open>n / d\<close>, with no bound on the exponent from above.\<close>

definition double_magnitude :: "int \<Rightarrow> int \<Rightarrow> real" where
  "double_magnitude n d =
     (let e = double_exponent n d;
          m = round_half_even (n * 2 ^ nat (- e)) (d * 2 ^ nat e)
      in real_of_int (m * 2 ^ nat e) / real_of_int (2 ^ nat (- e)))"

text \<open>
  \<^verbatim>\<open>a / b\<close> on Python integers: \<^verbatim>\<open>ZeroDivisionError\<close> for a zero divisor,
  \<^verbatim>\<open>OverflowError\<close> when the quotient is too large for a double, and otherwise the
  correctly rounded quotient (round to nearest, ties to even). The two zeros of the
  doubles compare equal and are one value here.
\<close>

definition py_truediv :: "int \<Rightarrow> int \<Rightarrow> py_error + real" where
  "py_truediv a b =
     (if b = 0 then Inl ZeroDivisionError
      else
        (let q = double_magnitude \<bar>a\<bar> \<bar>b\<bar>
         in if 2 ^ 1024 \<le> q then Inl OverflowError
            else Inr (if (a < 0) \<noteq> (b < 0) then - q else q)))"

text \<open>
  The default \<^verbatim>\<open>threshold=0.6\<close>: the literal denotes the double nearest to six
  tenths, which lies below six tenths.
\<close>

definition default_threshold :: real where
  "default_threshold = 5404319552844595 / 9007199254740992"

section \<open>Arena: \<^verbatim>\<open>play_game\<close> and \<^verbatim>\<open>evaluate_networks\<close>\<close>

text \<open>
  The \<^verbatim>\<open>while not game_state.getGameEnded()\<close> loop of \<^verbatim>\<open>play_game\<close>, on the two
  network objects; it returns the final state and player.
\<close>

partial_function (option) play_loop ::
  "'b Game \<Rightarrow> ('b, 'n, 'r) Torch \<Rightarrow> 'n \<Rightarrow> 'n \<Rightarrow> 'b \<Rightarrow> int \<Rightarrow> 'r \<Rightarrow> ('b \<times> int \<times> 'r) option"
where
  "play_loop g t network_a network_b game_state player r =
     (if state_getGameEnded g game_state = 0 then
        (let (pv, r') = (if player = 1 then predict t network_a game_state r
                         else predict t network_b game_state r);
             action = argmax t (fst pv);
             (game_state', player') = state_getNextState g game_state player action
         in play_loop g t network_a network_b game_state' player' r')
      else Some (game_state, player, r))"

declare play_loop.simps [code]

text \<open>The two arms after the loop of \<^verbatim>\<open>play_game\<close> (lines 174 to 177).\<close>

definition play_game_result :: "'b Game \<Rightarrow> 'b \<Rightarrow> int \<Rightarrow> real" where
  "play_game_result g game_state player =
     (if player = - 1 then state_getGameEnded g game_state
      else state_getGameEnded g game_state)"

definition play_game ::
  "'b AlphaZeroNano \<Rightarrow> ('b, 'n, 'r) Torch \<Rightarrow> nat \<Rightarrow> nat \<Rightarrow> ('n, 'r) world
     \<Rightarrow> (real \<times> ('n, 'r) world) option" where
  "play_game self t network_a network_b w =
     (case play_loop (game self) t (heap w ! network_a) (heap w ! network_b)
             (getInitBoard (game self)) 1 (hidden w) of
        None \<Rightarrow> None
      | Some (game_state, player, r) \<Rightarrow>
          Some (play_game_result (game self) game_state player, w\<lparr>hidden := r\<rparr>))"

text \<open>
  The \<^verbatim>\<open>for _ in range(num_games)\<close> loop of \<^verbatim>\<open>evaluate_networks\<close>: the first
  argument counts the games still to play, \<open>network_a_wins\<close> is the tally.
\<close>

fun arena_loop ::
  "nat \<Rightarrow> 'b AlphaZeroNano \<Rightarrow> ('b, 'n, 'r) Torch \<Rightarrow> nat \<Rightarrow> nat \<Rightarrow> int \<Rightarrow> ('n, 'r) world
     \<Rightarrow> (int \<times> ('n, 'r) world) option" where
  "arena_loop 0 self t network_a network_b network_a_wins w = Some (network_a_wins, w)"
| "arena_loop (Suc k) self t network_a network_b network_a_wins w =
     (case play_game self t network_a network_b w of
        None \<Rightarrow> None
      | Some (network_a_result, w') \<Rightarrow>
          arena_loop k self t network_a network_b
            (if network_a_result > 0 then network_a_wins + 1 else network_a_wins) w')"

text \<open>
  \<^verbatim>\<open>evaluate_networks\<close>. \<^verbatim>\<open>range(num_games)\<close> is empty for a count below one; the
  win rate is the rounded quotient of two integers, and the division raises on a zero
  count; the comparison with the threshold is exact.
\<close>

definition evaluate_networks ::
  "'b AlphaZeroNano \<Rightarrow> ('b, 'n, 'r) Torch \<Rightarrow> nat \<Rightarrow> nat \<Rightarrow> int \<Rightarrow> real \<Rightarrow> ('n, 'r) world
     \<Rightarrow> ((py_error + nat) \<times> ('n, 'r) world) option" where
  "evaluate_networks self t network_a network_b num_games threshold w =
     (case arena_loop (nat num_games) self t network_a network_b 0 w of
        None \<Rightarrow> None
      | Some (network_a_wins, w') \<Rightarrow>
          (case py_truediv network_a_wins num_games of
             Inl e \<Rightarrow> Some (Inl e, w')
           | Inr win_rate \<Rightarrow>
               if win_rate > threshold then Some (Inr network_a, w')
               else Some (Inr network_b, w')))"

text \<open>
  The results of the games of one arena run, in the order played. This is the trace the
  tally of \<open>arena_loop\<close> is compared with; it is not a function of the source.
\<close>

fun arena_results ::
  "nat \<Rightarrow> 'b AlphaZeroNano \<Rightarrow> ('b, 'n, 'r) Torch \<Rightarrow> nat \<Rightarrow> nat \<Rightarrow> ('n, 'r) world
     \<Rightarrow> (real list \<times> ('n, 'r) world) option" where
  "arena_results 0 self t network_a network_b w = Some ([], w)"
| "arena_results (Suc k) self t network_a network_b w =
     (case play_game self t network_a network_b w of
        None \<Rightarrow> None
      | Some (r, w') \<Rightarrow>
          (case arena_results k self t network_a network_b w' of
             None \<Rightarrow> None
           | Some (rs, w'') \<Rightarrow> Some (r # rs, w'')))"

text \<open>
  \<^verbatim>\<open>play_game\<close> once more, with a log of the states on which
  \<^verbatim>\<open>game_state.getGameEnded()\<close> is called: once by every evaluation of the loop test,
  and once by the \<^verbatim>\<open>return\<close> statement of the arm taken. The source keeps no such
  log; it is used to count the reads of the terminal outcome.
\<close>

partial_function (option) play_loop_reads ::
  "'b Game \<Rightarrow> ('b, 'n, 'r) Torch \<Rightarrow> 'n \<Rightarrow> 'n \<Rightarrow> 'b list \<Rightarrow> 'b \<Rightarrow> int \<Rightarrow> 'r
     \<Rightarrow> ('b list \<times> 'b \<times> int \<times> 'r) option"
where
  "play_loop_reads g t network_a network_b reads game_state player r =
     (if state_getGameEnded g game_state = 0 then
        (let (pv, r') = (if player = 1 then predict t network_a game_state r
                         else predict t network_b game_state r);
             action = argmax t (fst pv);
             (game_state', player') = state_getNextState g game_state player action
         in play_loop_reads g t network_a network_b (reads @ [game_state])
              game_state' player' r')
      else Some (reads @ [game_state], game_state, player, r))"

declare play_loop_reads.simps [code]

definition play_game_reads ::
  "'b AlphaZeroNano \<Rightarrow> ('b, 'n, 'r) Torch \<Rightarrow> nat \<Rightarrow> nat \<Rightarrow> ('n, 'r) world
     \<Rightarrow> (real \<times> 'b list \<times> ('n, 'r) world) option" where
  "play_game_reads self t network_a network_b w =
     (case play_loop_reads (game self) t (heap w ! network_a) (heap w ! network_b) []
             (getInitBoard (game self)) 1 (hidden w) of
        None \<Rightarrow> None
      | Some (reads, game_state, player, r) \<Rightarrow>
          Some (play_game_result (game self) game_state player, reads @ [game_state],
                w\<lparr>hidden := r\<rparr>))"

section \<open>Self-play: \<^verbatim>\<open>self_play\<close>\<close>

text \<open>
  The \<^verbatim>\<open>while not self.game.getGameEnded(board=game_state, player=player)\<close> loop of
  one episode; \<open>game_states\<close> is the list the loop appends to.
\<close>

partial_function (option) episode_loop ::
  "'b AlphaZeroNano \<Rightarrow> ('b, 'n, 'r) Torch \<Rightarrow> 'n \<Rightarrow> ('b \<times> real list) list \<Rightarrow> 'b \<Rightarrow> int \<Rightarrow> 'r
     \<Rightarrow> (('b \<times> real list) list \<times> 'b \<times> int \<times> 'r) option"
where
  "episode_loop self t model game_states game_state player r =
     (if getGameEnded (game self) game_state player = 0 then
        (let (policy, r1) = apv_mcts t (game self) game_state model
                              (num_simulations self) (c_parameter self) r;
             game_states' = game_states @ [(game_state, policy)];
             (action, r2) = random_choice t (getActionSize (game self)) policy r1;
             (game_state', player') = state_getNextState (game self) game_state player action
         in episode_loop self t model game_states' game_state' player' r2)
      else Some (game_states, game_state, player, r))"

declare episode_loop.simps [code]

text \<open>
  One pass of the body of \<^verbatim>\<open>for _ in range(num_episodes)\<close>: the game, the single read
  of \<^verbatim>\<open>game_state.getGameEnded()\<close> and the examples appended for it.
\<close>

definition episode ::
  "'b AlphaZeroNano \<Rightarrow> ('b, 'n, 'r) Torch \<Rightarrow> 'n \<Rightarrow> 'r
     \<Rightarrow> (('b \<times> real list \<times> real) list \<times> 'r) option" where
  "episode self t model r =
     (case episode_loop self t model [] (getInitBoard (game self)) 1 r of
        None \<Rightarrow> None
      | Some (game_states, game_state, player, r') \<Rightarrow>
          (let game_result = state_getGameEnded (game self) game_state
           in Some (map (\<lambda>(state, policy). (state, policy, game_result)) game_states, r')))"

fun self_play_loop ::
  "nat \<Rightarrow> 'b AlphaZeroNano \<Rightarrow> ('b, 'n, 'r) Torch \<Rightarrow> 'n \<Rightarrow> ('b \<times> real list \<times> real) list \<Rightarrow> 'r
     \<Rightarrow> (('b \<times> real list \<times> real) list \<times> 'r) option" where
  "self_play_loop 0 self t model train_episodes r = Some (train_episodes, r)"
| "self_play_loop (Suc k) self t model train_episodes r =
     (case episode self t model r of
        None \<Rightarrow> None
      | Some (examples, r') \<Rightarrow> self_play_loop k self t model (train_episodes @ examples) r')"

definition self_play ::
  "'b AlphaZeroNano \<Rightarrow> ('b, 'n, 'r) Torch \<Rightarrow> nat \<Rightarrow> int \<Rightarrow> ('n, 'r) world
     \<Rightarrow> (('b \<times> real list \<times> real) list \<times> ('n, 'r) world) option" where
  "self_play self t model num_episodes w =
     (case self_play_loop (nat num_episodes) self t (heap w ! model) [] (hidden w) of
        None \<Rightarrow> None
      | Some (train_episodes, r) \<Rightarrow> Some (train_episodes, w\<lparr>hidden := r\<rparr>))"

text \<open>
  The same episode loop, recording next to each appended pair the player who was to move.
  The source keeps no such list; it is used to say on whose turn an example was recorded.
\<close>

partial_function (option) episode_loop_turns ::
  "'b AlphaZeroNano \<Rightarrow> ('b, 'n, 'r) Torch \<Rightarrow> 'n \<Rightarrow> ('b \<times> real list) list \<Rightarrow> int list \<Rightarrow> 'b
     \<Rightarrow> int \<Rightarrow> 'r \<Rightarrow> (('b \<times> real list) list \<times> int list \<times> 'b \<times> int \<times> 'r) option"
where
  "episode_loop_turns self t model game_states turns game_state player r =
     (if getGameEnded (game self) game_state player = 0 then
        (let (policy, r1) = apv_mcts t (game self) game_state model
                              (num_simulations self) (c_parameter self) r;
             game_states' = game_states @ [(game_state, policy)];
             turns' = turns @ [player];
             (action, r2) = random_choice t (getActionSize (game self)) policy r1;
             (game_state', player') = state_getNextState (game self) game_state player action
         in episode_loop_turns self t model game_states' turns' game_state' player' r2)
      else Some (game_states, turns, game_state, player, r))"

declare episode_loop_turns.simps [code]

definition episode_turns ::
  "'b AlphaZeroNano \<Rightarrow> ('b, 'n, 'r) Torch \<Rightarrow> 'n \<Rightarrow> 'r \<Rightarrow> int list option" where
  "episode_turns self t model r =
     (case episode_loop_turns self t model [] [] (getInitBoard (game self)) 1 r of
        None \<Rightarrow> None
      | Some (game_states, turns, game_state, player, r') \<Rightarrow> Some turns)"

section \<open>Batching: \<^verbatim>\<open>batch_episodes\<close>\<close>

text \<open>
  \<^verbatim>\<open>torch.tensor(rows, dtype=torch.float32)\<close> on a sequence of rows: the rows must all
  have the shape of the first one, or the call raises \<^verbatim>\<open>ValueError\<close>. The tensor is
  represented by its rows, so its leading dimension is the length of the list.
\<close>

definition torch_tensor :: "('x \<Rightarrow> nat list) \<Rightarrow> 'x list \<Rightarrow> py_error + 'x list" where
  "torch_tensor shape rows =
     (case rows of
        [] \<Rightarrow> Inr []
      | x # xs \<Rightarrow> if list_all (\<lambda>y. shape y = shape x) xs then Inr rows else Inl ValueError)"

text \<open>
  \<^verbatim>\<open>DataLoader(TensorDataset(states, policies, results), batch_size, shuffle=True)\<close>:
  the three tensors and the batch size.
\<close>

record 'b DataLoader =
  states_tensor :: "'b list"
  policies_tensor :: "real list list"
  results_tensor :: "real list"
  batch_size :: int

text \<open>
  \<^verbatim>\<open>batch_episodes\<close>. Unpacking \<^verbatim>\<open>zip(*train_data)\<close> into three names raises
  \<^verbatim>\<open>ValueError\<close> on an empty list; the three conversions follow in the order of the
  source; the loader refuses a batch size that is not positive.
\<close>

definition batch_episodes ::
  "'b AlphaZeroNano \<Rightarrow> ('b \<times> real list \<times> real) list \<Rightarrow> int \<Rightarrow> py_error + 'b DataLoader" where
  "batch_episodes self train_data batch_sz =
     (if train_data = [] then Inl ValueError
      else
        (let states = map fst train_data;
             policies = map (\<lambda>e. fst (snd e)) train_data;
             results = map (\<lambda>e. snd (snd e)) train_data
         in case torch_tensor (state_shape (game self)) states of
              Inl e \<Rightarrow> Inl e
            | Inr st \<Rightarrow>
               (case torch_tensor (\<lambda>p. [length p]) policies of
                  Inl e \<Rightarrow> Inl e
                | Inr pt \<Rightarrow>
                   (case torch_tensor (\<lambda>v. []) results of
                      Inl e \<Rightarrow> Inl e
                    | Inr rt \<Rightarrow>
                       if batch_sz \<le> 0 then Inl ValueError
                       else Inr \<lparr>states_tensor = st, policies_tensor = pt,
                                 results_tensor = rt, batch_size = batch_sz\<rparr>))))"

text \<open>
  Iterating the loader: the sampler's order \<open>perm\<close> of the row indices is cut into runs
  of \<open>batch_size\<close> (the last run may be shorter), and each run is collated field by field.
\<close>

function batch_indices :: "nat \<Rightarrow> nat list \<Rightarrow> nat list list" where
  "batch_indices n idxs =
     (if idxs = [] \<or> n = 0 then [] else take n idxs # batch_indices n (drop n idxs))"
  by pat_completeness auto
termination
  by (relation "measure (\<lambda>(n, idxs). length idxs)") auto

declare batch_indices.simps [simp del]

definition collate ::
  "'b DataLoader \<Rightarrow> nat list \<Rightarrow> 'b list \<times> real list list \<times> real list" where
  "collate dl idxs =
     (map (\<lambda>i. states_tensor dl ! i) idxs,
      map (\<lambda>i. policies_tensor dl ! i) idxs,
      map (\<lambda>i. results_tensor dl ! i) idxs)"

definition dataloader_iter ::
  "'b DataLoader \<Rightarrow> nat list \<Rightarrow> ('b list \<times> real list list \<times> real list) list" where
  "dataloader_iter dl perm = map (collate dl) (batch_indices (nat (batch_size dl)) perm)"

text \<open>The examples of a mini-batch, row by row.\<close>

definition batch_rows ::
  "'b list \<times> real list list \<times> real list \<Rightarrow> ('b \<times> real list \<times> real) list" where
  "batch_rows b = zip (fst b) (zip (fst (snd b)) (snd (snd b)))"

section \<open>Retraining: \<^verbatim>\<open>retrain_nn\<close>\<close>

text \<open>
  The optimizer's two calls, on every network object it was built over.
\<close>

definition optimizer_zero_grad ::
  "('b, 'n, 'r) Torch \<Rightarrow> nat list \<Rightarrow> 'n list \<Rightarrow> 'n list" where
  "optimizer_zero_grad t handles h = fold (\<lambda>k h'. h'[k := zero_grad t (h' ! k)]) handles h"

definition optimizer_step ::
  "('b, 'n, 'r) Torch \<Rightarrow> nat list \<Rightarrow> 'n list \<times> 'r \<Rightarrow> 'n list \<times> 'r" where
  "optimizer_step t handles hr =
     fold (\<lambda>k (h', r'). (let (n', r'') = opt_step t (h' ! k) r' in (h'[k := n'], r'')))
       handles hr"

text \<open>
  The body of \<^verbatim>\<open>for x_train, policy_train, value_train in dataloader\<close>, over the
  mini-batches in the order the loader yields them.
\<close>

fun train_batches ::
  "'b AlphaZeroNano \<Rightarrow> ('b, 'n, 'r) Torch \<Rightarrow> nat
     \<Rightarrow> ('b list \<times> real list list \<times> real list) list \<Rightarrow> ('n, 'r) world \<Rightarrow> ('n, 'r) world" where
  "train_batches self t neural_network [] w = w"
| "train_batches self t neural_network ((x_train, policy_train, value_train) # rest) w =
     (let ((policy_pred, value_pred), r1) =
            predict_batch t (heap w ! neural_network) x_train (hidden w);
          h1 = optimizer_zero_grad t (optimizer self) (heap w);
          h2 = h1[neural_network :=
                    backward t policy_train policy_pred value_train value_pred
                      (h1 ! neural_network)];
          (h3, r2) = optimizer_step t (optimizer self) (h2, r1)
      in train_batches self t neural_network rest \<lparr>heap = h3, hidden = r2\<rparr>)"

definition retrain_nn ::
  "'b AlphaZeroNano \<Rightarrow> ('b, 'n, 'r) Torch \<Rightarrow> nat \<Rightarrow> ('b \<times> real list \<times> real) list \<Rightarrow> int
     \<Rightarrow> ('n, 'r) world \<Rightarrow> (py_error + unit) \<times> ('n, 'r) world" where
  "retrain_nn self t neural_network train_data train_batch_size w =
     (case batch_episodes self train_data train_batch_size of
        Inl e \<Rightarrow> (Inl e, w)
      | Inr dataloader \<Rightarrow>
          (let (perm, r) = randperm t (length (results_tensor dataloader)) (hidden w)
           in (Inr (),
               train_batches self t neural_network (dataloader_iter dataloader perm)
                 (w\<lparr>hidden := r\<rparr>))))"

section \<open>The orchestrator: \<^verbatim>\<open>train\<close>\<close>

text \<open>\<^verbatim>\<open>copy.deepcopy(network)\<close>: a new object with the same contents.\<close>

definition deepcopy :: "nat \<Rightarrow> ('n, 'r) world \<Rightarrow> nat \<times> ('n, 'r) world" where
  "deepcopy network w = (length (heap w), w\<lparr>heap := heap w @ [heap w ! network]\<rparr>)"

text \<open>
  One pass of the body of \<^verbatim>\<open>for _ in range(num_epochs)\<close>. The arena is called with
  ten games and the default threshold.
\<close>

definition train_epoch ::
  "'b AlphaZeroNano \<Rightarrow> ('b, 'n, 'r) Torch \<Rightarrow> nat \<Rightarrow> int \<Rightarrow> int \<Rightarrow> ('n, 'r) world
     \<Rightarrow> ((py_error + nat) \<times> ('n, 'r) world) option" where
  "train_epoch self t current_network train_batch_size num_episodes w =
     (case self_play self t current_network num_episodes w of
        None \<Rightarrow> None
      | Some (train_episodes, w1) \<Rightarrow>
          (let (old_network, w2) = deepcopy current_network w1
           in case retrain_nn self t current_network train_episodes train_batch_size w2 of
                (Inl e, w3) \<Rightarrow> Some (Inl e, w3)
              | (Inr u, w3) \<Rightarrow>
                  evaluate_networks self t current_network old_network 10 default_threshold w3))"

fun train_loop ::
  "nat \<Rightarrow> 'b AlphaZeroNano \<Rightarrow> ('b, 'n, 'r) Torch \<Rightarrow> nat \<Rightarrow> int \<Rightarrow> int \<Rightarrow> ('n, 'r) world
     \<Rightarrow> ((py_error + nat) \<times> ('n, 'r) world) option" where
  "train_loop 0 self t current_network train_batch_size num_episodes w =
     Some (Inr current_network, w)"
| "train_loop (Suc k) self t current_network train_batch_size num_episodes w =
     (case train_epoch self t current_network train_batch_size num_episodes w of
        None \<Rightarrow> None
      | Some (Inl e, w') \<Rightarrow> Some (Inl e, w')
      | Some (Inr current_network', w') \<Rightarrow>
          train_loop k self t current_network' train_batch_size num_episodes w')"

definition train ::
  "'b AlphaZeroNano \<Rightarrow> ('b, 'n, 'r) Torch \<Rightarrow> nat \<Rightarrow> int \<Rightarrow> int \<Rightarrow> int \<Rightarrow> ('n, 'r) world
     \<Rightarrow> ((py_error + nat) \<times> ('n, 'r) world) option" where
  "train self t neural_network train_batch_size num_epochs num_episodes w =
     train_loop (nat num_epochs) self t neural_network train_batch_size num_episodes w"

section \<open>A small game and small collaborators, for running the model\<close>

text \<open>
  A board is an array of two cells, empty (\<open>0\<close>) at the start. The first move writes the
  first cell, the second move the second, each with the action plus one; then the game is
  over. The first player wins exactly when the first cell holds \<open>2\<close>.
\<close>

fun toy_ended :: "int list \<Rightarrow> real" where
  "toy_ended [x, y] = (if y = 0 then 0 else if x = 2 then 1 else - 1)"
| "toy_ended b = 1"

fun toy_next :: "int list \<Rightarrow> int \<Rightarrow> int \<Rightarrow> int list \<times> int" where
  "toy_next [x, y] player action =
     (if x = 0 then [action + 1, 0] else [x, action + 1], - player)"
| "toy_next b player action = (b, - player)"

definition toy_game :: "int list Game" where
  "toy_game =
     \<lparr>getInitBoard = [0, 0],
      getGameEnded = (\<lambda>b player. toy_ended b * real_of_int player),
      getActionSize = 2,
      state_getGameEnded = toy_ended,
      state_getNextState = toy_next,
      state_shape = (\<lambda>b. [length b])\<rparr>"

text \<open>
  A network object is the policy vector it answers with. The hidden state is a list of
  numbers still to be drawn: an odd number makes \<open>predict\<close> answer with the reversed
  vector, and \<open>random_choice\<close> reduces the number drawn modulo the action count. An
  optimizer step replaces every component \<open>x\<close> by \<open>1 - x\<close>, so it turns the preference
  of a two-action policy round.
\<close>

definition toy_torch :: "(int list, real list, nat list) Torch" where
  "toy_torch =
     \<lparr>predict = (\<lambda>n b r. case r of [] \<Rightarrow> ((n, 0), [])
                          | x # xs \<Rightarrow> ((if even x then n else rev n, 0), xs)),
      predict_batch = (\<lambda>n bs r. ((map (\<lambda>b. n) bs, map (\<lambda>b. 0) bs), r)),
      argmax = (\<lambda>p. case p of [x, y] \<Rightarrow> (if x < y then 1 else 0) | _ \<Rightarrow> 0),
      apv_mcts = (\<lambda>g b n iterations c r. (n, r)),
      random_choice = (\<lambda>k p r. case r of [] \<Rightarrow> (0, []) | x # xs \<Rightarrow> (int x mod k, xs)),
      randperm = (\<lambda>n r. (rev [0..<n], r)),
      backward = (\<lambda>policy_train policy_pred value_train value_pred n. n),
      zero_grad = (\<lambda>n. n),
      opt_step = (\<lambda>n r. (map (\<lambda>x. 1 - x) n, r))\<rparr>"

text \<open>The same collaborators with a \<open>predict\<close> that ignores the hidden state.\<close>

definition greedy_torch :: "(int list, real list, nat list) Torch" where
  "greedy_torch = toy_torch\<lparr>predict := (\<lambda>n b r. ((n, 0), r))\<rparr>"

definition toy_agent :: "int list AlphaZeroNano" where
  "toy_agent = \<lparr>c_parameter = 1, num_simulations = 5, optimizer = [0], game = toy_game\<rparr>"

text \<open>The same agent on a game whose initial board is already full.\<close>

definition ended_agent :: "int list AlphaZeroNano" where
  "ended_agent = toy_agent\<lparr>game := toy_game\<lparr>getInitBoard := [2, 1]\<rparr>\<rparr>"

text \<open>
  The same agent on a variant of the game with draws: a full board with two equal cells
  is a draw, which this game reports by the small positive value \<open>1 / 10000\<close>.
\<close>

fun drawn :: "int list \<Rightarrow> bool" where
  "drawn [x, y] = (y \<noteq> 0 \<and> x = y)"
| "drawn b = False"

fun draw_ended :: "int list \<Rightarrow> real" where
  "draw_ended [x, y] =
     (if y = 0 then 0 else if x = y then 1 / 10000 else if x = 2 then 1 else - 1)"
| "draw_ended b = 1"

definition draw_agent :: "int list AlphaZeroNano" where
  "draw_agent =
     toy_agent\<lparr>game := toy_game\<lparr>getGameEnded := (\<lambda>b player. draw_ended b * real_of_int player),
                                  state_getGameEnded := draw_ended\<rparr>\<rparr>"

text \<open>Two network objects that both prefer action 1.\<close>

definition draw_world :: "(real list, nat list) world" where
  "draw_world = \<lparr>heap = [[2 / 10, 8 / 10], [3 / 10, 7 / 10]], hidden = []\<rparr>"

text \<open>Two network objects: the first prefers action 1, the second action 0.\<close>

definition toy_world :: "nat list \<Rightarrow> (real list, nat list) world" where
  "toy_world r = \<lparr>heap = [[2 / 10, 8 / 10], [8 / 10, 2 / 10]], hidden = r\<rparr>"

text \<open>Three examples to batch, used below.\<close>

definition toy_batch_examples :: "(int list \<times> real list \<times> real) list" where
  "toy_batch_examples = [([0, 0], [1, 0], 1), ([1, 0], [0, 1], 1), ([1, 2], [0, 1], - 1)]"

text \<open>The examples of one self-play game of the small agent, used below.\<close>

definition toy_examples :: "(int list \<times> real list \<times> real) list" where
  "toy_examples = [([0, 0], [2 / 10, 8 / 10], 1), ([2, 0], [2 / 10, 8 / 10], 1)]"

text \<open>
  Two outcomes of a call agree up to the hidden library state: both calls diverge, or both
  return the same value and leave the same store.
\<close>

definition same_but_hidden ::
  "('a \<times> ('n, 'r) world) option \<Rightarrow> ('a \<times> ('n, 'r) world) option \<Rightarrow> bool" where
  "same_but_hidden x y =
     (case (x, y) of
        (None, None) \<Rightarrow> True
      | (Some (u, w), Some (v, w')) \<Rightarrow> u = v \<and> heap w = heap w'
      | _ \<Rightarrow> False)"

section \<open>Properties of the true division\<close>

lemma bit_length_nonneg: "0 \<le> bit_length n"
proof (induction n rule: bit_length.induct)
  case (1 n)
  show ?case
  proof (cases "n \<le> 0")
    case True
    then show ?thesis by (subst bit_length.simps) simp
  next
    case False
    with 1 show ?thesis by (subst bit_length.simps) simp
  qed
qed

lemma bit_length_mono: "n \<le> d \<Longrightarrow> bit_length n \<le> bit_length d"
proof (induction n arbitrary: d rule: bit_length.induct)
  case (1 n)
  show ?case
  proof (cases "n \<le> 0")
    case True
    then have "bit_length n = 0" by (subst bit_length.simps) simp
    with bit_length_nonneg [of d] show ?thesis by simp
  next
    case False
    with "1.prems" have d: "\<not> d \<le> 0" by simp
    have "n div 2 \<le> d div 2" using "1.prems" by (rule zdiv_mono1) simp
    from "1.IH" [OF False this] have "bit_length (n div 2) \<le> bit_length (d div 2)" .
    moreover have "bit_length n = 1 + bit_length (n div 2)"
      using False by (subst bit_length.simps) simp
    moreover have "bit_length d = 1 + bit_length (d div 2)"
      using d by (subst bit_length.simps) simp
    ultimately show ?thesis by simp
  qed
qed

lemma round_half_even_nonneg:
  assumes "0 \<le> n" "0 < d"
  shows "0 \<le> round_half_even n d"
proof -
  have "0 \<le> n div d" using assms by (simp add: pos_imp_zdiv_nonneg_iff)
  then show ?thesis by (simp add: round_half_even_def Let_def)
qed

lemma round_half_even_le:
  assumes d: "0 < d" and le: "n \<le> K * d"
  shows "round_half_even n d \<le> K"
proof -
  have "n div d \<le> (K * d) div d" using le d by (intro zdiv_mono1) simp_all
  then have q: "n div d \<le> K" using d by simp
  show ?thesis
  proof (cases "n div d = K")
    case True
    have "n = d * (n div d) + n mod d" by simp
    with True have "n mod d = n - d * K" by (metis add_diff_cancel_left')
    with le have "n mod d \<le> 0" by (simp add: mult.commute)
    moreover have "0 \<le> n mod d" using d by simp
    ultimately have "n mod d = 0" by simp
    with d True show ?thesis by (simp add: round_half_even_def Let_def)
  next
    case False
    with q have "n div d + 1 \<le> K" by simp
    then show ?thesis using q by (simp add: round_half_even_def Let_def)
  qed
qed

lemma double_magnitude_unit:
  assumes n: "0 \<le> n" and le: "n \<le> d" and d: "0 < d"
  shows "0 \<le> double_magnitude n d \<and> double_magnitude n d \<le> 1"
proof -
  define e where "e = double_exponent n d"
  define k where "k = nat (- e)"
  have "bit_length n - bit_length d \<le> 0"
    using bit_length_mono [OF le] by simp
  then have e_neg: "e \<le> - 52"
    by (simp add: e_def double_exponent_def Let_def)
  then have ne: "nat e = 0" by simp
  define m where "m = round_half_even (n * 2 ^ k) d"
  have mag: "double_magnitude n d = real_of_int m / real_of_int (2 ^ k)"
    by (simp add: double_magnitude_def Let_def e_def [symmetric] ne k_def [symmetric] m_def)
  have "n * 2 ^ k \<le> 2 ^ k * d"
    using le by (simp add: mult.commute)
  then have m_le: "m \<le> 2 ^ k"
    unfolding m_def by (rule round_half_even_le [OF d])
  have m_ge: "0 \<le> m"
    unfolding m_def using n d by (intro round_half_even_nonneg) simp_all
  have pos: "(0::real) < real_of_int (2 ^ k)" by simp
  have "real_of_int m \<le> real_of_int (2 ^ k)"
    using m_le by (simp only: of_int_le_iff)
  then have "real_of_int m / real_of_int (2 ^ k) \<le> 1"
    using pos by (simp add: divide_le_eq_1)
  moreover have "0 \<le> real_of_int m / real_of_int (2 ^ k)"
    using m_ge by simp
  ultimately show ?thesis by (simp only: mag)
qed

lemma py_truediv_unit:
  assumes "0 \<le> a" "a \<le> b" "0 < b"
  shows "\<exists>q. py_truediv a b = Inr q \<and> 0 \<le> q \<and> q \<le> 1"
proof -
  from double_magnitude_unit [OF assms]
  have u: "0 \<le> double_magnitude a b" "double_magnitude a b \<le> 1" by simp_all
  have "(1::real) < 2 ^ 1024" by simp
  with u have "\<not> 2 ^ 1024 \<le> double_magnitude a b" by linarith
  with assms u show ?thesis
    by (simp add: py_truediv_def Let_def)
qed

lemma py_truediv_zero:
  assumes "b \<noteq> 0"
  shows "py_truediv 0 b = Inr 0"
proof -
  have d: "0 < \<bar>b\<bar> * 2 ^ nat (double_exponent 0 \<bar>b\<bar>)" using assms by simp
  have "round_half_even 0 (\<bar>b\<bar> * 2 ^ nat (double_exponent 0 \<bar>b\<bar>)) = 0"
    using d by (simp add: round_half_even_def)
  then have "double_magnitude 0 \<bar>b\<bar> = 0"
    by (simp add: double_magnitude_def Let_def)
  with assms show ?thesis by (simp add: py_truediv_def)
qed

lemma py_truediv_error:
  "py_truediv a b = Inl e \<Longrightarrow> (b = 0 \<and> e = ZeroDivisionError) \<or> (b \<noteq> 0 \<and> e = OverflowError)"
  by (auto simp: py_truediv_def Let_def split: if_splits)

section \<open>Properties of the arena\<close>

lemma arena_loop_results:
  "arena_loop k self t a b acc w =
     map_option (\<lambda>(rs, w'). (acc + int (length (filter (\<lambda>r. r > 0) rs)), w'))
       (arena_results k self t a b w)"
  by (induction k arbitrary: acc w) (auto split: option.splits)

lemma arena_results_length:
  "arena_results k self t a b w = Some (rs, w') \<Longrightarrow> length rs = k"
  by (induction k arbitrary: rs w) (auto split: option.splits)

lemma arena_results_tally_le:
  assumes "arena_results k self t a b w = Some (rs, w')"
  shows "int (length (filter (\<lambda>r. r > 0) rs)) \<le> int k"
  using arena_results_length [OF assms] length_filter_le [of "\<lambda>r. r > 0" rs] by simp

text \<open>
  C1, as stated, fails on drawn games. In the variant of the small game with draws, two
  networks that both prefer action 1 play one game to the full board \<open>[2, 2]\<close>, a draw,
  which the game reports by \<open>1 / 10000\<close>. The test \<^verbatim>\<open>network_a_result > 0\<close> counts it:
  the tally is one, and the first network is returned as the winner of a drawn game.
\<close>

theorem arena_tallies_positive_draw:
  "play_loop (game draw_agent) greedy_torch (heap draw_world ! 0) (heap draw_world ! 1)
       (getInitBoard (game draw_agent)) 1 (hidden draw_world) = Some ([2, 2], 1, [])
   \<and> drawn [2, 2]
   \<and> arena_results (nat 1) draw_agent greedy_torch 0 1 draw_world
       = Some ([1 / 10000], draw_world)
   \<and> arena_loop (nat 1) draw_agent greedy_torch 0 1 0 draw_world = Some (1, draw_world)
   \<and> evaluate_networks draw_agent greedy_torch 0 1 1 default_threshold draw_world
       = Some (Inr 0, draw_world)"
  by code_simp

text \<open>
  C1, amended. When \<open>num_games \<ge> 1\<close> games are played and end with the results \<open>rs\<close>,
  the tally of \<^verbatim>\<open>evaluate_networks\<close> is the number of results above zero: a game
  adds one exactly when its result value is positive, whatever that value stands for, and
  there is no other tally. The win rate is the double nearest to the tally divided by
  \<open>num_games\<close>; it lies between 0 and 1, so the division does not fail. The first network
  is returned exactly when the win rate is strictly above the threshold; otherwise, also
  when the two are equal, the second one is.
\<close>

theorem evaluate_networks_tally_and_gate:
  assumes games: "1 \<le> num_games"
    and played: "arena_results (nat num_games) self t network_a network_b w = Some (rs, w')"
  shows "length rs = nat num_games
       \<and> arena_loop (nat num_games) self t network_a network_b 0 w
           = Some (int (length (filter (\<lambda>r. r > 0) rs)), w')
       \<and> (\<exists>win_rate.
             py_truediv (int (length (filter (\<lambda>r. r > 0) rs))) num_games = Inr win_rate
           \<and> 0 \<le> win_rate \<and> win_rate \<le> 1
           \<and> evaluate_networks self t network_a network_b num_games threshold w
               = Some (Inr (if win_rate > threshold then network_a else network_b), w'))"
proof -
  let ?wins = "int (length (filter (\<lambda>r. r > 0) rs))"
  have len: "length rs = nat num_games"
    using played by (rule arena_results_length)
  have tally: "arena_loop (nat num_games) self t network_a network_b 0 w = Some (?wins, w')"
    by (simp add: arena_loop_results played)
  have "?wins \<le> int (nat num_games)"
    using played by (rule arena_results_tally_le)
  then have le: "?wins \<le> num_games" using games by simp
  have pos: "0 < num_games" using games by simp
  from py_truediv_unit [OF _ le pos] obtain win_rate where
    wr: "py_truediv ?wins num_games = Inr win_rate" and u: "0 \<le> win_rate" "win_rate \<le> 1"
    by auto
  have "evaluate_networks self t network_a network_b num_games threshold w
          = Some (Inr (if win_rate > threshold then network_a else network_b), w')"
    by (simp add: evaluate_networks_def tally wr)
  with len tally wr u show ?thesis by blast
qed

theorem evaluate_networks_tally_and_gate_witness:
  "(1::int) \<le> 3
   \<and> arena_results (nat 3) toy_agent toy_torch 0 1 (toy_world [0, 0, 1, 0, 1, 0])
       = Some ([1, - 1, - 1], toy_world [])
   \<and> arena_loop (nat 3) toy_agent toy_torch 0 1 0 (toy_world [0, 0, 1, 0, 1, 0])
       = Some (1, toy_world [])
   \<and> py_truediv 1 3 = Inr (6004799503160661 / 18014398509481984)
   \<and> evaluate_networks toy_agent toy_torch 0 1 3 (6004799503160661 / 18014398509481984)
         (toy_world [0, 0, 1, 0, 1, 0])
       = Some (Inr 1, toy_world [])
   \<and> evaluate_networks toy_agent toy_torch 0 1 3 (33 / 100) (toy_world [0, 0, 1, 0, 1, 0])
       = Some (Inr 0, toy_world [])"
proof -
  have played: "arena_results (nat 3) toy_agent toy_torch 0 1 (toy_world [0, 0, 1, 0, 1, 0])
                  = Some ([1, - 1, - 1], toy_world [])"
    by code_simp
  have q: "py_truediv 1 3 = Inr (6004799503160661 / 18014398509481984)"
    by code_simp
  have g: "(1::int) \<le> 3" by simp
  have wins: "int (length (filter (\<lambda>r. r > 0) [1, - 1, - 1 :: real])) = 1" by simp
  from evaluate_networks_tally_and_gate
         [OF g played, of "6004799503160661 / 18014398509481984"]
  obtain x where x: "py_truediv (int (length (filter (\<lambda>r. r > 0) [1, - 1, - 1 :: real]))) 3
                       = Inr x"
    and tally: "arena_loop (nat 3) toy_agent toy_torch 0 1 0 (toy_world [0, 0, 1, 0, 1, 0])
                  = Some (int (length (filter (\<lambda>r. r > 0) [1, - 1, - 1 :: real])),
                          toy_world [])"
    and ex: "evaluate_networks toy_agent toy_torch 0 1 3
               (6004799503160661 / 18014398509481984) (toy_world [0, 0, 1, 0, 1, 0])
             = Some (Inr (if x > 6004799503160661 / 18014398509481984 then 0 else 1),
                     toy_world [])"
    by blast
  from evaluate_networks_tally_and_gate [OF g played, of "33 / 100"]
  obtain y where y: "py_truediv (int (length (filter (\<lambda>r. r > 0) [1, - 1, - 1 :: real]))) 3
                       = Inr y"
    and ey: "evaluate_networks toy_agent toy_torch 0 1 3 (33 / 100)
               (toy_world [0, 0, 1, 0, 1, 0])
             = Some (Inr (if y > 33 / 100 then 0 else 1), toy_world [])"
    by blast
  have xv: "x = 6004799503160661 / 18014398509481984"
    using x q unfolding wins by (simp only: sum.inject)
  have yv: "y = 6004799503160661 / 18014398509481984"
    using y q unfolding wins by (simp only: sum.inject)
  have e1: "evaluate_networks toy_agent toy_torch 0 1 3
               (6004799503160661 / 18014398509481984) (toy_world [0, 0, 1, 0, 1, 0])
             = Some (Inr 1, toy_world [])"
    using ex unfolding xv by simp
  have e2: "evaluate_networks toy_agent toy_torch 0 1 3 (33 / 100)
               (toy_world [0, 0, 1, 0, 1, 0])
             = Some (Inr 0, toy_world [])"
    using ey unfolding yv by simp
  have t: "arena_loop (nat 3) toy_agent toy_torch 0 1 0 (toy_world [0, 0, 1, 0, 1, 0])
             = Some (1, toy_world [])"
    using tally unfolding wins .
  from g played t q e1 e2 show ?thesis by (intro conjI)
qed

lemma play_loop_ended:
  fixes g :: "'b Game" and t :: "('b, 'n, 'r) Torch"
  assumes "play_loop g t na nb s p r = Some y"
  shows "state_getGameEnded g (fst y) \<noteq> 0"
proof (rule play_loop.raw_induct
    [where P = "\<lambda>g t na nb s p r y. state_getGameEnded g (fst y) \<noteq> 0", OF _ assms])
  fix f and g :: "'b Game" and t :: "('b, 'n, 'r) Torch" and na nb s p r y
  assume IH: "\<And>g t na nb s p r y. f g t na nb s p r = Some y
                \<Longrightarrow> state_getGameEnded g (fst y) \<noteq> (0::real)"
    and step: "(if state_getGameEnded g s = 0 then
        (let (pv, r') = (if p = 1 then predict t na s r else predict t nb s r);
             action = argmax t (fst pv);
             (game_state', player') = state_getNextState g s p action
         in f g t na nb game_state' player' r')
      else Some (s, p, r)) = Some y"
  show "state_getGameEnded g (fst y) \<noteq> 0"
    using step IH by (auto split: if_splits prod.splits simp: Let_def)
qed

lemma play_loop_hidden_irrelevant:
  fixes g :: "'b Game" and t :: "('b, 'n, 'r) Torch"
  assumes det: "\<And>n b r r'. fst (fst (predict t n b r)) = fst (fst (predict t n b r'))"
    and run: "play_loop g t na nb s p r = Some y"
  shows "\<exists>r2'. play_loop g t na nb s p r2 = Some (fst y, fst (snd y), r2')"
proof -
  have "(\<forall>n b r r'. fst (fst (predict t n b r)) = fst (fst (predict t n b r')))
        \<longrightarrow> (\<forall>r2. \<exists>r2'. play_loop g t na nb s p r2 = Some (fst y, fst (snd y), r2'))"
  proof (rule play_loop.raw_induct
      [where P = "\<lambda>g t na nb s p r y.
         (\<forall>n b r r'. fst (fst (predict t n b r)) = fst (fst (predict t n b r')))
         \<longrightarrow> (\<forall>r2. \<exists>r2'. play_loop g t na nb s p r2 = Some (fst y, fst (snd y), r2'))",
       OF _ run])
    fix f and g :: "'b Game" and t :: "('b, 'n, 'r) Torch" and na nb s p r y
    assume IH: "\<And>g t na nb s p r y. f g t na nb s p r = Some y \<Longrightarrow>
        (\<forall>n b r r'. fst (fst (predict t n b r)) = fst (fst (predict t n b r')))
         \<longrightarrow> (\<forall>r2. \<exists>r2'. play_loop g t na nb s p r2 = Some (fst y, fst (snd y), r2'))"
      and step: "(if state_getGameEnded g s = 0 then
          (let (pv, r') = (if p = 1 then predict t na s r else predict t nb s r);
               action = argmax t (fst pv);
               (game_state', player') = state_getNextState g s p action
           in f g t na nb game_state' player' r')
        else Some (s, p, r)) = Some y"
    show "(\<forall>n b r r'. fst (fst (predict t n b r)) = fst (fst (predict t n b r')))
         \<longrightarrow> (\<forall>r2. \<exists>r2'. play_loop g t na nb s p r2 = Some (fst y, fst (snd y), r2'))"
    proof (intro impI allI)
      fix r2
      assume d: "\<forall>n b r r'. fst (fst (predict t n b r)) = fst (fst (predict t n b r'))"
      show "\<exists>r2'. play_loop g t na nb s p r2 = Some (fst y, fst (snd y), r2')"
      proof (cases "state_getGameEnded g s = 0")
        case False
        with step have "y = (s, p, r)" by simp
        with False show ?thesis by (subst play_loop.simps) simp
      next
        case True
        define n where "n = (if p = 1 then na else nb)"
        define pol where "pol = fst (fst (predict t n s r))"
        define nxt where "nxt = state_getNextState g s p (argmax t pol)"
        have pol2: "fst (fst (predict t n s r2)) = pol"
          using d unfolding pol_def by blast
        from step True have "f g t na nb (fst nxt) (snd nxt) (snd (predict t n s r)) = Some y"
          unfolding nxt_def pol_def n_def
          by (auto split: if_splits prod.splits simp: Let_def)
        from IH[OF this] d obtain r2' where
          "play_loop g t na nb (fst nxt) (snd nxt) (snd (predict t n s r2)) = Some (fst y, fst (snd y), r2')"
          by blast
        then show ?thesis
          using True pol2 unfolding nxt_def n_def
          by (subst play_loop.simps) (auto split: if_splits prod.splits simp: Let_def)
      qed
    qed
  qed
  with det show ?thesis by blast
qed

lemma play_loop_det:
  fixes g :: "'b Game" and t :: "('b, 'n, 'r) Torch"
  assumes det: "\<And>n b r r'. fst (fst (predict t n b r)) = fst (fst (predict t n b r'))"
  shows "map_option (\<lambda>y. (fst y, fst (snd y))) (play_loop g t na nb s p r1)
       = map_option (\<lambda>y. (fst y, fst (snd y))) (play_loop g t na nb s p r2)"
proof (cases "play_loop g t na nb s p r1")
  case None
  show ?thesis
  proof (cases "play_loop g t na nb s p r2")
    case None2: None
    with None show ?thesis by simp
  next
    case (Some y)
    from play_loop_hidden_irrelevant [OF det Some, of r1] None show ?thesis by simp
  qed
next
  case (Some y)
  from play_loop_hidden_irrelevant [OF det Some, of r2] Some show ?thesis by auto
qed

lemma play_game_det:
  assumes det: "\<And>n b r r'. fst (fst (predict t n b r)) = fst (fst (predict t n b r'))"
    and hp: "heap w1 = heap w2"
  shows "same_but_hidden (play_game self t a b w1) (play_game self t a b w2)"
proof -
  let ?l1 = "play_loop (game self) t (heap w2 ! a) (heap w2 ! b)
               (getInitBoard (game self)) 1 (hidden w1)"
  let ?l2 = "play_loop (game self) t (heap w2 ! a) (heap w2 ! b)
               (getInitBoard (game self)) 1 (hidden w2)"
  have eq: "map_option (\<lambda>y. (fst y, fst (snd y))) ?l1
          = map_option (\<lambda>y. (fst y, fst (snd y))) ?l2"
    by (rule play_loop_det [OF det])
  show ?thesis
  proof (cases ?l1)
    case None
    with eq have "?l2 = None" by simp
    with None hp show ?thesis by (simp add: play_game_def same_but_hidden_def)
  next
    case (Some y1)
    with eq obtain y2 where y2: "?l2 = Some y2" by (cases ?l2) auto
    with eq Some have "fst y1 = fst y2" "fst (snd y1) = fst (snd y2)" by auto
    with Some y2 hp show ?thesis
      by (cases y1; cases y2) (simp add: play_game_def same_but_hidden_def)
  qed
qed

lemma arena_loop_det:
  assumes det: "\<And>n b r r'. fst (fst (predict t n b r)) = fst (fst (predict t n b r'))"
    and hp: "heap w1 = heap w2"
  shows "same_but_hidden (arena_loop k self t a b wins w1) (arena_loop k self t a b wins w2)"
  using hp
proof (induction k arbitrary: wins w1 w2)
  case 0
  then show ?case by (simp add: same_but_hidden_def)
next
  case (Suc k)
  from play_game_det [OF det Suc.prems, of self a b]
  consider (none) "play_game self t a b w1 = None" "play_game self t a b w2 = None"
    | (some) res w1' w2' where "play_game self t a b w1 = Some (res, w1')"
        "play_game self t a b w2 = Some (res, w2')" "heap w1' = heap w2'"
    by (auto simp: same_but_hidden_def split: option.splits)
  then show ?case
  proof cases
    case none
    then show ?thesis by (simp add: same_but_hidden_def)
  next
    case some
    with Suc.IH [OF some(3)] show ?thesis by simp
  qed
qed

text \<open>
  C7. If the policy that \<open>predict\<close> returns does not depend on the hidden library
  state (deterministic evaluators; the arena picks actions by \<open>argmax\<close>), then two
  arena runs on the same store, from any two hidden states, end with the same win tally
  and return the same network handle (or both never return).
\<close>

theorem arena_deterministic:
  assumes det: "\<And>n b r r'. fst (fst (predict t n b r)) = fst (fst (predict t n b r'))"
    and hp: "heap w1 = heap w2"
  shows "map_option fst (arena_loop (nat num_games) self t network_a network_b 0 w1)
           = map_option fst (arena_loop (nat num_games) self t network_a network_b 0 w2)
       \<and> map_option fst (evaluate_networks self t network_a network_b num_games threshold w1)
           = map_option fst (evaluate_networks self t network_a network_b num_games threshold w2)"
proof -
  from arena_loop_det [OF det hp, of "nat num_games" self network_a network_b 0]
  consider (none) "arena_loop (nat num_games) self t network_a network_b 0 w1 = None"
        "arena_loop (nat num_games) self t network_a network_b 0 w2 = None"
    | (some) wins w1' w2' where
        "arena_loop (nat num_games) self t network_a network_b 0 w1 = Some (wins, w1')"
        "arena_loop (nat num_games) self t network_a network_b 0 w2 = Some (wins, w2')"
    by (auto simp: same_but_hidden_def split: option.splits)
  then show ?thesis
  proof cases
    case none
    then show ?thesis by (simp add: evaluate_networks_def)
  next
    case some
    then show ?thesis
      by (cases "py_truediv wins num_games") (simp_all add: evaluate_networks_def)
  qed
qed

theorem arena_deterministic_witness:
  "heap (toy_world [1]) = heap (toy_world [0, 3])
   \<and> map_option fst (arena_loop (nat 3) toy_agent greedy_torch 0 1 0 (toy_world [1]))
       = map_option fst (arena_loop (nat 3) toy_agent greedy_torch 0 1 0 (toy_world [0, 3]))
   \<and> map_option fst (evaluate_networks toy_agent greedy_torch 0 1 3 (6 / 10) (toy_world [1]))
       = map_option fst
           (evaluate_networks toy_agent greedy_torch 0 1 3 (6 / 10) (toy_world [0, 3]))
   \<and> map_option fst (evaluate_networks toy_agent greedy_torch 0 1 3 (6 / 10) (toy_world [1]))
       = Some (Inr 0)"
proof -
  have det: "\<And>n b r r'. fst (fst (predict greedy_torch n b r))
                         = fst (fst (predict greedy_torch n b r'))"
    by (simp add: greedy_torch_def)
  have hp: "heap (toy_world [1]) = heap (toy_world [0, 3])"
    by (simp add: toy_world_def)
  have run: "map_option fst
               (evaluate_networks toy_agent greedy_torch 0 1 3 (6 / 10) (toy_world [1]))
             = Some (Inr 0)"
    by code_simp
  show ?thesis
    using arena_deterministic [OF det hp, of 3 toy_agent 0 1 "6 / 10"] hp run by simp
qed

lemma play_loop_reads_project:
  fixes g :: "'b Game" and t :: "('b, 'n, 'r) Torch"
  assumes run: "play_loop g t na nb s p r = Some y"
  shows "\<exists>visited. play_loop_reads g t na nb reads s p r
                     = Some (reads @ visited @ [fst y], fst y, fst (snd y), snd (snd y))
                 \<and> (\<forall>v \<in> set visited. state_getGameEnded g v = 0)"
proof -
  have "\<forall>reads. \<exists>visited. play_loop_reads g t na nb reads s p r
                     = Some (reads @ visited @ [fst y], fst y, fst (snd y), snd (snd y))
                 \<and> (\<forall>v \<in> set visited. state_getGameEnded g v = 0)"
  proof (rule play_loop.raw_induct
      [where P = "\<lambda>g t na nb s p r y.
         \<forall>reads. \<exists>visited. play_loop_reads g t na nb reads s p r
                     = Some (reads @ visited @ [fst y], fst y, fst (snd y), snd (snd y))
                 \<and> (\<forall>v \<in> set visited. state_getGameEnded g v = 0)", OF _ run])
    fix f and g :: "'b Game" and t :: "('b, 'n, 'r) Torch" and na nb s p r y
    assume IH: "\<And>g t na nb s p r y. f g t na nb s p r = Some y \<Longrightarrow>
         \<forall>reads. \<exists>visited. play_loop_reads g t na nb reads s p r
                     = Some (reads @ visited @ [fst y], fst y, fst (snd y), snd (snd y))
                 \<and> (\<forall>v \<in> set visited. state_getGameEnded g v = 0)"
      and step: "(if state_getGameEnded g s = 0 then
          (let (pv, r') = (if p = 1 then predict t na s r else predict t nb s r);
               action = argmax t (fst pv);
               (game_state', player') = state_getNextState g s p action
           in f g t na nb game_state' player' r')
        else Some (s, p, r)) = Some y"
    show "\<forall>reads. \<exists>visited. play_loop_reads g t na nb reads s p r
                     = Some (reads @ visited @ [fst y], fst y, fst (snd y), snd (snd y))
                 \<and> (\<forall>v \<in> set visited. state_getGameEnded g v = 0)"
    proof
      fix reads
      show "\<exists>visited. play_loop_reads g t na nb reads s p r
                     = Some (reads @ visited @ [fst y], fst y, fst (snd y), snd (snd y))
                 \<and> (\<forall>v \<in> set visited. state_getGameEnded g v = 0)"
      proof (cases "state_getGameEnded g s = 0")
        case False
        with step have "y = (s, p, r)" by simp
        with False have "play_loop_reads g t na nb reads s p r
                     = Some (reads @ [] @ [fst y], fst y, fst (snd y), snd (snd y))"
          by (subst play_loop_reads.simps) simp
        then show ?thesis by (intro exI [of _ "[]"]) simp
      next
        case True
        obtain pv r' where a: "(if p = 1 then predict t na s r else predict t nb s r) = (pv, r')"
          by (cases "if p = 1 then predict t na s r else predict t nb s r")
        obtain s' p' where n: "state_getNextState g s p (argmax t (fst pv)) = (s', p')"
          by (cases "state_getNextState g s p (argmax t (fst pv))")
        from step True a n have "f g t na nb s' p' r' = Some y"
          by (simp add: Let_def)
        from IH [OF this] obtain visited where
          v: "play_loop_reads g t na nb (reads @ [s]) s' p' r'
                = Some ((reads @ [s]) @ visited @ [fst y], fst y, fst (snd y), snd (snd y))"
          and z: "\<forall>v \<in> set visited. state_getGameEnded g v = 0"
          by blast
        have "play_loop_reads g t na nb reads s p r
                = Some (reads @ (s # visited) @ [fst y], fst y, fst (snd y), snd (snd y))"
          using True a n v by (subst play_loop_reads.simps) (simp add: Let_def)
        moreover have "\<forall>v \<in> set (s # visited). state_getGameEnded g v = 0"
          using z True by simp
        ultimately show ?thesis by blast
      qed
    qed
  qed
  then show ?thesis by blast
qed

text \<open>
  C9, as stated, fails. In a game of the small agent the terminal state \<open>[1, 1]\<close> is the
  last state of the game, and \<^verbatim>\<open>getGameEnded()\<close> is called on it twice: by the loop
  test that ends the game and by the \<^verbatim>\<open>return\<close> statement.
\<close>

theorem play_game_reads_terminal_twice:
  "play_game_reads toy_agent toy_torch 0 1 (toy_world [1, 0])
     = Some (- 1, [[0, 0], [1, 0], [1, 1], [1, 1]], toy_world [])
   \<and> state_getGameEnded (game toy_agent) [1, 1] = - 1
   \<and> count_list ([[0, 0], [1, 0], [1, 1], [1, 1]] :: int list list) [1, 1] = 2"
  by code_simp

text \<open>
  C9, amended. Whenever \<^verbatim>\<open>play_game\<close> returns, \<^verbatim>\<open>getGameEnded()\<close> has been called
  on the final state twice, by the loop test that ended the game and by the
  \<^verbatim>\<open>return\<close> statement, and on no other state did it give a non-zero value. The value
  returned is that terminal outcome as the game gives it; it is the same on both arms of
  the final player test, whatever the player is, and nothing is interpreted by seat.
\<close>

theorem play_game_reads_outcome:
  assumes run: "play_game self t network_a network_b w = Some (res, w')"
  shows "\<exists>visited final player.
           play_loop (game self) t (heap w ! network_a) (heap w ! network_b)
             (getInitBoard (game self)) 1 (hidden w) = Some (final, player, hidden w')
         \<and> play_game_reads self t network_a network_b w
             = Some (res, visited @ [final, final], w')
         \<and> (\<forall>v \<in> set visited. state_getGameEnded (game self) v = 0)
         \<and> state_getGameEnded (game self) final \<noteq> 0
         \<and> length (filter (\<lambda>s. state_getGameEnded (game self) s \<noteq> 0)
                     (visited @ [final, final])) = 2
         \<and> res = state_getGameEnded (game self) final
         \<and> play_game_result (game self) final (- 1) = res
         \<and> (\<forall>player'. play_game_result (game self) final player' = res)"
proof -
  from run obtain final player r where
    loop: "play_loop (game self) t (heap w ! network_a) (heap w ! network_b)
             (getInitBoard (game self)) 1 (hidden w) = Some (final, player, r)"
    and res: "res = play_game_result (game self) final player"
    and w': "w' = w\<lparr>hidden := r\<rparr>"
    by (auto simp: play_game_def split: option.splits)
  from play_loop_ended [OF loop] have nz: "state_getGameEnded (game self) final \<noteq> 0"
    by simp
  from play_loop_reads_project [OF loop, of "[]"] obtain visited where
    reads: "play_loop_reads (game self) t (heap w ! network_a) (heap w ! network_b) []
              (getInitBoard (game self)) 1 (hidden w)
            = Some (visited @ [final], final, player, r)"
    and zero: "\<forall>v \<in> set visited. state_getGameEnded (game self) v = 0"
    by auto
  have pg: "play_game_reads self t network_a network_b w
              = Some (res, visited @ [final, final], w')"
    using reads res w' by (simp add: play_game_reads_def)
  have "filter (\<lambda>s. state_getGameEnded (game self) s \<noteq> 0) visited = []"
    using zero by (simp add: filter_empty_conv)
  then have cnt: "length (filter (\<lambda>s. state_getGameEnded (game self) s \<noteq> 0)
                     (visited @ [final, final])) = 2"
    using nz by simp
  have val: "res = state_getGameEnded (game self) final"
    using res by (simp add: play_game_result_def)
  have arms: "\<forall>player'. play_game_result (game self) final player' = res"
    using val by (simp add: play_game_result_def)
  have h: "hidden w' = r" using w' by simp
  from loop pg zero nz cnt val arms show ?thesis
    unfolding h [symmetric] by blast
qed

theorem play_game_reads_outcome_witness:
  "play_game toy_agent toy_torch 0 1 (toy_world [1, 0]) = Some (- 1, toy_world [])
   \<and> (\<exists>visited final player.
           play_loop (game toy_agent) toy_torch (heap (toy_world [1, 0]) ! 0)
             (heap (toy_world [1, 0]) ! 1) (getInitBoard (game toy_agent)) 1
             (hidden (toy_world [1, 0])) = Some (final, player, hidden (toy_world []))
         \<and> play_game_reads toy_agent toy_torch 0 1 (toy_world [1, 0])
             = Some (- 1, visited @ [final, final], toy_world [])
         \<and> length (filter (\<lambda>s. state_getGameEnded (game toy_agent) s \<noteq> 0)
                     (visited @ [final, final])) = 2
         \<and> - 1 = state_getGameEnded (game toy_agent) final
         \<and> play_game_result (game toy_agent) final (- 1) = - 1
         \<and> (\<forall>player'. play_game_result (game toy_agent) final player' = - 1))"
proof -
  have run: "play_game toy_agent toy_torch 0 1 (toy_world [1, 0]) = Some (- 1, toy_world [])"
    by code_simp
  from play_game_reads_outcome [OF run] run show ?thesis by blast
qed

text \<open>
  C10, as stated, fails on negative counts. With \<open>num_games = -3\<close>, which is not at
  least one, no game is played, the division of zero by the count succeeds, and the second
  network is returned.
\<close>

theorem evaluate_networks_negative_games:
  "(- 3 :: int) < 1
   \<and> py_truediv 0 (- 3) = Inr 0
   \<and> evaluate_networks toy_agent toy_torch 0 1 (- 3) default_threshold (toy_world [0, 0])
       = Some (Inr 1, toy_world [0, 0])"
  by code_simp

text \<open>
  C10, amended. \<^verbatim>\<open>evaluate_networks\<close> has no guard on \<open>num_games\<close>. With
  \<open>num_games = 0\<close> no game is played and the division raises \<^verbatim>\<open>ZeroDivisionError\<close>
  before either network is returned. That is its only error: with \<open>num_games \<ge> 1\<close> it
  returns one of the two networks whenever the games end, and with a negative
  \<open>num_games\<close> it plays no game either, the win rate is zero, and it returns the second
  network when the threshold is not negative and the first one otherwise.
\<close>

theorem evaluate_networks_total_iff:
  "evaluate_networks self t network_a network_b 0 threshold w = Some (Inl ZeroDivisionError, w)
   \<and> (num_games < 0
        \<longrightarrow> evaluate_networks self t network_a network_b num_games threshold w
              = Some (Inr (if 0 > threshold then network_a else network_b), w))
   \<and> (1 \<le> num_games
        \<longrightarrow> arena_results (nat num_games) self t network_a network_b w \<noteq> None
        \<longrightarrow> (\<exists>net w'. evaluate_networks self t network_a network_b num_games threshold w
                         = Some (Inr net, w')
                     \<and> (net = network_a \<or> net = network_b)))
   \<and> (\<forall>e w'. evaluate_networks self t network_a network_b num_games threshold w
                 = Some (Inl e, w')
              \<longrightarrow> num_games = 0 \<and> e = ZeroDivisionError)"
proof -
  have zero: "evaluate_networks self t network_a network_b 0 threshold w
                = Some (Inl ZeroDivisionError, w)"
    by (simp add: evaluate_networks_def py_truediv_def)
  have neg: "evaluate_networks self t network_a network_b num_games threshold w
              = Some (Inr (if 0 > threshold then network_a else network_b), w)"
    if "num_games < 0"
  proof -
    from that have "nat num_games = 0" "num_games \<noteq> 0" by simp_all
    then show ?thesis
      by (simp add: evaluate_networks_def py_truediv_zero)
  qed
  have pos: "\<exists>net w'. evaluate_networks self t network_a network_b num_games threshold w
                         = Some (Inr net, w')
                     \<and> (net = network_a \<or> net = network_b)"
    if g: "1 \<le> num_games"
      and p: "arena_results (nat num_games) self t network_a network_b w \<noteq> None"
  proof -
    from p obtain rs w' where
      played: "arena_results (nat num_games) self t network_a network_b w = Some (rs, w')"
      by auto
    let ?wins = "int (length (filter (\<lambda>r. r > 0) rs))"
    have tally: "arena_loop (nat num_games) self t network_a network_b 0 w = Some (?wins, w')"
      by (simp add: arena_loop_results played)
    have "?wins \<le> int (nat num_games)"
      using played by (rule arena_results_tally_le)
    then have le: "?wins \<le> num_games" using g by simp
    have "0 < num_games" using g by simp
    from py_truediv_unit [OF _ le this] obtain win_rate where
      "py_truediv ?wins num_games = Inr win_rate" by auto
    then have "evaluate_networks self t network_a network_b num_games threshold w
          = Some (Inr (if win_rate > threshold then network_a else network_b), w')"
      by (simp add: evaluate_networks_def tally)
    then show ?thesis by auto
  qed
  have err: "num_games = 0 \<and> e = ZeroDivisionError"
    if e: "evaluate_networks self t network_a network_b num_games threshold w
             = Some (Inl e, w')" for e w'
  proof (cases "num_games = 0")
    case True
    with e zero show ?thesis by simp
  next
    case False
    show ?thesis
    proof (cases "num_games < 0")
      case True
      from neg [OF True] e show ?thesis by simp
    next
      case nonneg: False
      with False have g: "1 \<le> num_games" by simp
      from e have "arena_results (nat num_games) self t network_a network_b w \<noteq> None"
        by (auto simp: evaluate_networks_def arena_loop_results split: option.splits)
      from pos [OF g this] e show ?thesis by auto
    qed
  qed
  from zero neg pos err show ?thesis by blast
qed

theorem evaluate_networks_total_iff_witness:
  "evaluate_networks toy_agent toy_torch 0 1 0 default_threshold (toy_world [0, 0])
     = Some (Inl ZeroDivisionError, toy_world [0, 0])
   \<and> (- 3 :: int) < 0
   \<and> evaluate_networks toy_agent toy_torch 0 1 (- 3) default_threshold (toy_world [0, 0])
       = Some (Inr 1, toy_world [0, 0])
   \<and> (1::int) \<le> 1
   \<and> arena_results (nat 1) toy_agent toy_torch 0 1 (toy_world [0, 0]) \<noteq> None
   \<and> (\<exists>net w'. evaluate_networks toy_agent toy_torch 0 1 1 default_threshold
                    (toy_world [0, 0])
                  = Some (Inr net, w')
              \<and> (net = 0 \<or> net = 1))"
proof -
  have played: "arena_results (nat 1) toy_agent toy_torch 0 1 (toy_world [0, 0]) \<noteq> None"
    by code_simp
  have thr: "\<not> 0 > default_threshold" by (simp add: default_threshold_def)
  have a: "(- 3 :: int) < 0" and b: "(1::int) \<le> 1" by simp_all
  from evaluate_networks_total_iff
         [of toy_agent toy_torch 0 1 default_threshold "toy_world [0, 0]" "- 3"] a thr
  have n: "evaluate_networks toy_agent toy_torch 0 1 (- 3) default_threshold (toy_world [0, 0])
             = Some (Inr 1, toy_world [0, 0])"
    by simp
  from evaluate_networks_total_iff
         [of toy_agent toy_torch 0 1 default_threshold "toy_world [0, 0]" 1] b played
  have z: "evaluate_networks toy_agent toy_torch 0 1 0 default_threshold (toy_world [0, 0])
             = Some (Inl ZeroDivisionError, toy_world [0, 0])"
    and p: "\<exists>net w'. evaluate_networks toy_agent toy_torch 0 1 1 default_threshold
                    (toy_world [0, 0])
                  = Some (Inr net, w')
              \<and> (net = 0 \<or> net = 1)"
    by blast+
  from z a n b played p show ?thesis by (intro conjI)
qed

section \<open>Properties of self-play\<close>

lemma episode_loop_turns_project:
  fixes self :: "'b AlphaZeroNano" and t :: "('b, 'n, 'r) Torch"
  assumes run: "episode_loop_turns self t model gs ts s p r = Some y"
  shows "episode_loop self t model gs s p r
           = Some (fst y, fst (snd (snd y)), fst (snd (snd (snd y))), snd (snd (snd (snd y))))
         \<and> length (fst (snd y)) + length gs = length (fst y) + length ts"
proof (rule episode_loop_turns.raw_induct
    [where P = "\<lambda>self t model gs ts s p r y.
       episode_loop self t model gs s p r
           = Some (fst y, fst (snd (snd y)), fst (snd (snd (snd y))), snd (snd (snd (snd y))))
         \<and> length (fst (snd y)) + length gs = length (fst y) + length ts", OF _ run])
  fix f and self :: "'b AlphaZeroNano" and t :: "('b, 'n, 'r) Torch"
    and model gs ts s p r y
  assume IH: "\<And>self t model gs ts s p r y. f self t model gs ts s p r = Some y \<Longrightarrow>
       episode_loop self t model gs s p r
           = Some (fst y, fst (snd (snd y)), fst (snd (snd (snd y))), snd (snd (snd (snd y))))
         \<and> length (fst (snd y)) + length gs = length (fst y) + length ts"
    and step: "(if getGameEnded (game self) s p = 0 then
        (let (policy, r1) = apv_mcts t (game self) s model
                              (num_simulations self) (c_parameter self) r;
             game_states' = gs @ [(s, policy)];
             turns' = ts @ [p];
             (action, r2) = random_choice t (getActionSize (game self)) policy r1;
             (game_state', player') = state_getNextState (game self) s p action
         in f self t model game_states' turns' game_state' player' r2)
      else Some (gs, ts, s, p, r)) = Some y"
  show "episode_loop self t model gs s p r
           = Some (fst y, fst (snd (snd y)), fst (snd (snd (snd y))), snd (snd (snd (snd y))))
         \<and> length (fst (snd y)) + length gs = length (fst y) + length ts"
  proof (cases "getGameEnded (game self) s p = 0")
    case False
    with step have "y = (gs, ts, s, p, r)" by simp
    with False show ?thesis by (subst episode_loop.simps) simp
  next
    case True
    obtain policy r1 where a: "apv_mcts t (game self) s model
                              (num_simulations self) (c_parameter self) r = (policy, r1)"
      by (cases "apv_mcts t (game self) s model (num_simulations self) (c_parameter self) r")
    obtain action r2 where c: "random_choice t (getActionSize (game self)) policy r1 = (action, r2)"
      by (cases "random_choice t (getActionSize (game self)) policy r1")
    obtain s' p' where n: "state_getNextState (game self) s p action = (s', p')"
      by (cases "state_getNextState (game self) s p action")
    from step True a c n have "f self t model (gs @ [(s, policy)]) (ts @ [p]) s' p' r2 = Some y"
      by simp
    from IH [OF this] show ?thesis
      using True a c n by (subst episode_loop.simps) simp
  qed
qed

lemma episode_loop_turns_exist:
  fixes self :: "'b AlphaZeroNano" and t :: "('b, 'n, 'r) Torch"
  assumes run: "episode_loop self t model gs s p r = Some y"
  shows "\<exists>ts'. episode_loop_turns self t model gs ts s p r
           = Some (fst y, ts', fst (snd y), fst (snd (snd y)), snd (snd (snd y)))"
proof -
  have "\<forall>ts. \<exists>ts'. episode_loop_turns self t model gs ts s p r
           = Some (fst y, ts', fst (snd y), fst (snd (snd y)), snd (snd (snd y)))"
  proof (rule episode_loop.raw_induct
    [where P = "\<lambda>self t model gs s p r y.
       \<forall>ts. \<exists>ts'. episode_loop_turns self t model gs ts s p r
           = Some (fst y, ts', fst (snd y), fst (snd (snd y)), snd (snd (snd y)))", OF _ run])
    fix f and self :: "'b AlphaZeroNano" and t :: "('b, 'n, 'r) Torch"
      and model gs s p r y
    assume IH: "\<And>self t model gs s p r y. f self t model gs s p r = Some y \<Longrightarrow>
       \<forall>ts. \<exists>ts'. episode_loop_turns self t model gs ts s p r
           = Some (fst y, ts', fst (snd y), fst (snd (snd y)), snd (snd (snd y)))"
      and step: "(if getGameEnded (game self) s p = 0 then
        (let (policy, r1) = apv_mcts t (game self) s model
                              (num_simulations self) (c_parameter self) r;
             game_states' = gs @ [(s, policy)];
             (action, r2) = random_choice t (getActionSize (game self)) policy r1;
             (game_state', player') = state_getNextState (game self) s p action
         in f self t model game_states' game_state' player' r2)
      else Some (gs, s, p, r)) = Some y"
    show "\<forall>ts. \<exists>ts'. episode_loop_turns self t model gs ts s p r
           = Some (fst y, ts', fst (snd y), fst (snd (snd y)), snd (snd (snd y)))"
    proof
      fix ts
      show "\<exists>ts'. episode_loop_turns self t model gs ts s p r
           = Some (fst y, ts', fst (snd y), fst (snd (snd y)), snd (snd (snd y)))"
      proof (cases "getGameEnded (game self) s p = 0")
        case False
        with step have "y = (gs, s, p, r)" by simp
        with False show ?thesis by (subst episode_loop_turns.simps) simp
      next
        case True
        obtain policy r1 where a: "apv_mcts t (game self) s model
                              (num_simulations self) (c_parameter self) r = (policy, r1)"
          by (cases "apv_mcts t (game self) s model (num_simulations self) (c_parameter self) r")
        obtain action r2 where c:
          "random_choice t (getActionSize (game self)) policy r1 = (action, r2)"
          by (cases "random_choice t (getActionSize (game self)) policy r1")
        obtain s' p' where n: "state_getNextState (game self) s p action = (s', p')"
          by (cases "state_getNextState (game self) s p action")
        from step True a c n have "f self t model (gs @ [(s, policy)]) s' p' r2 = Some y"
          by simp
        from IH [OF this] obtain ts' where
          "episode_loop_turns self t model (gs @ [(s, policy)]) (ts @ [p]) s' p' r2
             = Some (fst y, ts', fst (snd y), fst (snd (snd y)), snd (snd (snd y)))"
          by blast
        then show ?thesis
          using True a c n by (subst episode_loop_turns.simps) simp
      qed
    qed
  qed
  then show ?thesis by blast
qed

lemma self_play_loop_no_examples:
  assumes "episode self t model r = Some ([], r)"
  shows "self_play_loop k self t model train_episodes r = Some (train_episodes, r)"
  using assms by (induction k) simp_all

text \<open>
  C6. If the initial state is already terminal for the first player, an episode records
  nothing and returns, and \<^verbatim>\<open>self_play\<close> returns the empty list for every number of
  episodes, leaving the world as it was.
\<close>

theorem self_play_terminal_start:
  assumes ended: "getGameEnded (game self) (getInitBoard (game self)) 1 \<noteq> 0"
  shows "episode self t (heap w ! model) (hidden w) = Some ([], hidden w)
       \<and> self_play self t model num_episodes w = Some ([], w)"
proof -
  have loop: "episode_loop self t (heap w ! model) [] (getInitBoard (game self)) 1 (hidden w)
                = Some ([], getInitBoard (game self), 1, hidden w)"
    using ended by (subst episode_loop.simps) simp
  then have ep: "episode self t (heap w ! model) (hidden w) = Some ([], hidden w)"
    by (simp add: episode_def)
  from self_play_loop_no_examples [OF ep]
  have "self_play self t model num_episodes w = Some ([], w)"
    by (simp add: self_play_def)
  with ep show ?thesis by simp
qed

theorem self_play_terminal_start_witness:
  "getGameEnded (game ended_agent) (getInitBoard (game ended_agent)) 1 \<noteq> 0
   \<and> episode ended_agent toy_torch (heap (toy_world [1, 0]) ! 0) (hidden (toy_world [1, 0]))
       = Some ([], hidden (toy_world [1, 0]))
   \<and> self_play ended_agent toy_torch 0 3 (toy_world [1, 0]) = Some ([], toy_world [1, 0])"
proof -
  have ended: "getGameEnded (game ended_agent) (getInitBoard (game ended_agent)) 1 \<noteq> 0"
    by (simp add: ended_agent_def toy_agent_def toy_game_def)
  from self_play_terminal_start [OF ended, of toy_torch "toy_world [1, 0]" 0 3] ended
  show ?thesis by simp
qed

text \<open>
  C2, as stated, fails. In the small game the two examples of one episode are recorded on
  the turns of player \<open>1\<close> and player \<open>-1\<close>, and both carry the outcome \<open>1\<close>: the
  outcomes are equal, not additive inverses.
\<close>

theorem self_play_outcomes_not_negated:
  "self_play toy_agent toy_torch 0 1 (toy_world [1, 0]) = Some (toy_examples, toy_world [])
   \<and> episode_turns toy_agent toy_torch (heap (toy_world [1, 0]) ! 0) (hidden (toy_world [1, 0]))
       = Some [1, - 1]
   \<and> [1, - 1 :: int] ! 0 = - ([1, - 1] ! 1)
   \<and> snd (snd (toy_examples ! 0)) = 1
   \<and> snd (snd (toy_examples ! 1)) = 1
   \<and> snd (snd (toy_examples ! 0)) \<noteq> - snd (snd (toy_examples ! 1))"
proof -
  have a: "self_play toy_agent toy_torch 0 1 (toy_world [1, 0])
             = Some (toy_examples, toy_world [])"
    by code_simp
  have b: "episode_turns toy_agent toy_torch (heap (toy_world [1, 0]) ! 0)
             (hidden (toy_world [1, 0])) = Some [1, - 1]"
    by code_simp
  from a b show ?thesis by (simp add: toy_examples_def)
qed

text \<open>
  C2, amended. Every example of an episode carries the same outcome, the value of
  \<^verbatim>\<open>game_state.getGameEnded()\<close> read once on the final state. Two examples recorded on
  opposite players' turns therefore have equal outcomes; they are additive inverses only
  when that value is zero.
\<close>

theorem episode_outcomes_equal:
  assumes run: "episode self t model r = Some (examples, r')"
  shows "\<exists>turns game_states game_state player.
           episode_turns self t model r = Some turns
         \<and> length turns = length examples
         \<and> episode_loop self t model [] (getInitBoard (game self)) 1 r
             = Some (game_states, game_state, player, r')
         \<and> (\<forall>e \<in> set examples. snd (snd e) = state_getGameEnded (game self) game_state)
         \<and> (\<forall>i < length examples. \<forall>j < length examples.
               turns ! i = - (turns ! j)
               \<longrightarrow> snd (snd (examples ! i)) = snd (snd (examples ! j))
                   \<and> (snd (snd (examples ! i)) = - snd (snd (examples ! j))
                        \<longleftrightarrow> state_getGameEnded (game self) game_state = 0))"
proof -
  from run obtain game_states game_state player where
    loop: "episode_loop self t model [] (getInitBoard (game self)) 1 r
             = Some (game_states, game_state, player, r')"
    and ex: "examples = map (\<lambda>(state, policy).
               (state, policy, state_getGameEnded (game self) game_state)) game_states"
    by (auto simp: episode_def Let_def split: option.splits)
  from episode_loop_turns_exist [OF loop, of "[]"] obtain turns where
    tl: "episode_loop_turns self t model [] [] (getInitBoard (game self)) 1 r
           = Some (game_states, turns, game_state, player, r')"
    by auto
  from episode_loop_turns_project [OF tl] have len: "length turns = length game_states"
    by simp
  have et: "episode_turns self t model r = Some turns"
    using tl by (simp add: episode_turns_def)
  have same: "\<forall>e \<in> set examples. snd (snd e) = state_getGameEnded (game self) game_state"
    using ex by auto
  then have "\<forall>i < length examples. \<forall>j < length examples.
               turns ! i = - (turns ! j)
               \<longrightarrow> snd (snd (examples ! i)) = snd (snd (examples ! j))
                   \<and> (snd (snd (examples ! i)) = - snd (snd (examples ! j))
                        \<longleftrightarrow> state_getGameEnded (game self) game_state = 0)"
    by simp
  with et len ex loop same show ?thesis by auto
qed

theorem episode_outcomes_equal_witness:
  "episode toy_agent toy_torch [2 / 10, 8 / 10] [1, 0] = Some (toy_examples, [])
   \<and> (\<exists>turns game_states game_state player.
           episode_turns toy_agent toy_torch [2 / 10, 8 / 10] [1, 0] = Some turns
         \<and> length turns = length toy_examples
         \<and> episode_loop toy_agent toy_torch [2 / 10, 8 / 10] []
               (getInitBoard (game toy_agent)) 1 [1, 0]
             = Some (game_states, game_state, player, [])
         \<and> (\<forall>e \<in> set toy_examples.
               snd (snd e) = state_getGameEnded (game toy_agent) game_state)
         \<and> (\<forall>i < length toy_examples. \<forall>j < length toy_examples.
               turns ! i = - (turns ! j)
               \<longrightarrow> snd (snd (toy_examples ! i)) = snd (snd (toy_examples ! j))
                   \<and> (snd (snd (toy_examples ! i)) = - snd (snd (toy_examples ! j))
                        \<longleftrightarrow> state_getGameEnded (game toy_agent) game_state = 0)))"
proof -
  have run: "episode toy_agent toy_torch [2 / 10, 8 / 10] [1, 0] = Some (toy_examples, [])"
    by code_simp
  from episode_outcomes_equal [OF run] run show ?thesis by blast
qed

section \<open>Properties of the orchestrator\<close>

lemma optimizer_zero_grad_frame:
  "length (optimizer_zero_grad t handles h) = length h
   \<and> (k \<notin> set handles \<longrightarrow> optimizer_zero_grad t handles h ! k = h ! k)"
  unfolding optimizer_zero_grad_def
  by (induction handles arbitrary: h) auto

lemma optimizer_step_frame:
  "length (fst (optimizer_step t handles (h, r))) = length h
   \<and> (k \<notin> set handles \<longrightarrow> fst (optimizer_step t handles (h, r)) ! k = h ! k)"
  unfolding optimizer_step_def
  by (induction handles arbitrary: h r) (auto split: prod.splits)

lemma train_batches_frame:
  "length (heap (train_batches self t nn batches w)) = length (heap w)
   \<and> (k \<noteq> nn \<longrightarrow> k \<notin> set (optimizer self)
        \<longrightarrow> heap (train_batches self t nn batches w) ! k = heap w ! k)"
proof (induction batches arbitrary: w)
  case Nil
  show ?case by simp
next
  case (Cons b batches)
  obtain x_train policy_train value_train where b: "b = (x_train, policy_train, value_train)"
    by (cases b) auto
  obtain policy_pred value_pred r1 where
    p: "predict_batch t (heap w ! nn) x_train (hidden w) = ((policy_pred, value_pred), r1)"
    by (cases "predict_batch t (heap w ! nn) x_train (hidden w)") auto
  define h1 where "h1 = optimizer_zero_grad t (optimizer self) (heap w)"
  define h2 where "h2 = h1[nn := backward t policy_train policy_pred value_train value_pred
                                    (h1 ! nn)]"
  obtain h3 r2 where s: "optimizer_step t (optimizer self) (h2, r1) = (h3, r2)"
    by (cases "optimizer_step t (optimizer self) (h2, r1)") auto
  have step: "train_batches self t nn (b # batches) w
                = train_batches self t nn batches \<lparr>heap = h3, hidden = r2\<rparr>"
    using b p s by (simp add: h1_def h2_def Let_def)
  have l1: "length h1 = length (heap w)"
    and f1: "k \<notin> set (optimizer self) \<Longrightarrow> h1 ! k = heap w ! k"
    using optimizer_zero_grad_frame [of t "optimizer self" "heap w" k] by (simp_all add: h1_def)
  have l2: "length h2 = length (heap w)"
    and f2: "k \<noteq> nn \<Longrightarrow> h2 ! k = h1 ! k"
    by (simp_all add: h2_def l1)
  have l3: "length h3 = length (heap w)"
    and f3: "k \<notin> set (optimizer self) \<Longrightarrow> h3 ! k = h2 ! k"
    using optimizer_step_frame [of t "optimizer self" h2 r1 k] s by (simp_all add: l2)
  from Cons.IH [of "\<lparr>heap = h3, hidden = r2\<rparr>"] show ?case
    unfolding step using l3 f1 f2 f3 by simp
qed

lemma retrain_nn_frame:
  "length (heap (snd (retrain_nn self t nn train_data bs w))) = length (heap w)
   \<and> (k \<noteq> nn \<longrightarrow> k \<notin> set (optimizer self)
        \<longrightarrow> heap (snd (retrain_nn self t nn train_data bs w)) ! k = heap w ! k)"
  using train_batches_frame [of self t nn _ _ k]
  by (auto simp: retrain_nn_def Let_def split: sum.splits prod.splits)

lemma self_play_heap:
  "self_play self t model num_episodes w = Some (x, w') \<Longrightarrow> heap w' = heap w"
  by (auto simp: self_play_def split: option.splits)

lemma play_game_heap:
  "play_game self t a b w = Some (x, w') \<Longrightarrow> heap w' = heap w"
  by (auto simp: play_game_def split: option.splits)

lemma arena_loop_heap:
  "arena_loop k self t a b wins w = Some (x, w') \<Longrightarrow> heap w' = heap w"
proof (induction k arbitrary: wins w)
  case 0
  then show ?case by simp
next
  case (Suc k)
  then show ?case
    by (auto split: option.splits dest: play_game_heap)
qed

lemma evaluate_networks_heap:
  assumes "evaluate_networks self t a b num_games threshold w = Some (res, w')"
  shows "heap w' = heap w \<and> (\<forall>next. res = Inr next \<longrightarrow> next = a \<or> next = b)"
  using assms
  by (auto simp: evaluate_networks_def split: option.splits if_splits sum.splits
           dest: arena_loop_heap)

text \<open>
  C3. With \<open>num_epochs = 0\<close> the loop body of \<^verbatim>\<open>train\<close> never runs: the call
  returns the handle it was given, whatever the collaborators are, and the world (the store
  of networks and the hidden library state) is the one it started from, so no self-play,
  retraining or arena call has taken place.
\<close>

theorem train_zero_epochs:
  "train self t neural_network train_batch_size 0 num_episodes w = Some (Inr neural_network, w)"
  by (simp add: train_def)

theorem train_zero_epochs_witness:
  "train toy_agent toy_torch 0 2 0 1 (toy_world [1, 0]) = Some (Inr 0, toy_world [1, 0])"
  using train_zero_epochs [of toy_agent toy_torch 0 2 1 "toy_world [1, 0]"] by simp

lemma train_epoch_frame:
  assumes cur: "current_network < length (heap w)"
    and opt: "\<forall>k \<in> set (optimizer self). k < length (heap w)"
    and run: "train_epoch self t current_network train_batch_size num_episodes w
                = Some (res, w')"
  shows "\<exists>train_episodes w1.
           self_play self t current_network num_episodes w = Some (train_episodes, w1)
         \<and> deepcopy current_network w1
             = (length (heap w), w1\<lparr>heap := heap w @ [heap w ! current_network]\<rparr>)
         \<and> heap (snd (retrain_nn self t current_network train_episodes train_batch_size
                         (snd (deepcopy current_network w1)))) ! length (heap w)
             = heap w ! current_network
         \<and> length (heap w') = Suc (length (heap w))
         \<and> heap w' ! length (heap w) = heap w ! current_network
         \<and> (\<forall>next. res = Inr next \<longrightarrow>
               (next = current_network \<or> next = length (heap w))
             \<and> next < length (heap w')
             \<and> (next \<noteq> current_network \<longrightarrow> heap w' ! next = heap w ! current_network))
         \<and> (\<forall>k \<in> set (optimizer self). k < length (heap w'))"
proof -
  let ?old = "length (heap w)"
  from run obtain train_episodes w1 where
    sp: "self_play self t current_network num_episodes w = Some (train_episodes, w1)"
    by (auto simp: train_epoch_def split: option.splits)
  have h1: "heap w1 = heap w"
    using sp by (rule self_play_heap)
  define w2 where "w2 = w1\<lparr>heap := heap w @ [heap w ! current_network]\<rparr>"
  have dc: "deepcopy current_network w1 = (?old, w2)"
    by (simp add: deepcopy_def h1 w2_def)
  define rt where "rt = retrain_nn self t current_network train_episodes train_batch_size w2"
  have old_ne: "?old \<noteq> current_network" "?old \<notin> set (optimizer self)"
    using cur opt by auto
  have l2: "length (heap w2) = Suc ?old"
    by (simp add: w2_def)
  have l3: "length (heap (snd rt)) = Suc ?old"
    using retrain_nn_frame [of self t current_network train_episodes train_batch_size w2 ?old] l2
    by (simp add: rt_def)
  have f3: "heap (snd rt) ! ?old = heap w ! current_network"
    using retrain_nn_frame [of self t current_network train_episodes train_batch_size w2 ?old]
      old_ne
    by (simp add: rt_def w2_def)
  have unfolded: "(case rt of
                     (Inl e, w3) \<Rightarrow> Some (Inl e, w3)
                   | (Inr u, w3) \<Rightarrow>
                       evaluate_networks self t current_network ?old 10 default_threshold w3)
                  = Some (res, w')"
    using run by (simp add: train_epoch_def sp dc rt_def)
  have both: "heap w' = heap (snd rt)
              \<and> (\<forall>next. res = Inr next \<longrightarrow> next = current_network \<or> next = ?old)"
  proof -
    obtain out w3 where rt_eq: "rt = (out, w3)" by (cases rt)
    show ?thesis
    proof (cases out)
      case (Inl e)
      with unfolded rt_eq have "res = Inl e" "w' = w3" by simp_all
      then show ?thesis using rt_eq by simp
    next
      case (Inr u)
      with unfolded rt_eq
      have ev: "evaluate_networks self t current_network ?old 10 default_threshold w3 = Some (res, w')"
        by simp
      from evaluate_networks_heap [OF ev] show ?thesis using rt_eq by simp
    qed
  qed
  then have hw': "heap w' = heap (snd rt)"
    and nxt: "\<forall>next. res = Inr next \<longrightarrow> next = current_network \<or> next = ?old"
    by simp_all
  have p3: "heap (snd (retrain_nn self t current_network train_episodes train_batch_size
                         (snd (deepcopy current_network w1)))) ! ?old
             = heap w ! current_network"
    using f3 dc by (simp add: rt_def)
  have lw': "length (heap w') = Suc ?old"
    using hw' l3 by simp
  have fw': "heap w' ! ?old = heap w ! current_network"
    using hw' f3 by simp
  have carried: "\<forall>next. res = Inr next \<longrightarrow>
               (next = current_network \<or> next = ?old)
             \<and> next < length (heap w')
             \<and> (next \<noteq> current_network \<longrightarrow> heap w' ! next = heap w ! current_network)"
  proof (intro allI impI)
    fix "next"
    assume "res = Inr next"
    with nxt have c: "next = current_network \<or> next = ?old" by blast
    then have b: "next < length (heap w')"
    proof
      assume "next = current_network"
      with cur lw' show ?thesis by linarith
    next
      assume "next = ?old"
      with lw' show ?thesis by linarith
    qed
    have f: "next \<noteq> current_network \<longrightarrow> heap w' ! next = heap w ! current_network"
    proof
      assume "next \<noteq> current_network"
      with c have "next = ?old" by blast
      then show "heap w' ! next = heap w ! current_network" by (simp only: fw')
    qed
    from c b f show "(next = current_network \<or> next = ?old)
             \<and> next < length (heap w')
             \<and> (next \<noteq> current_network \<longrightarrow> heap w' ! next = heap w ! current_network)"
      by (intro conjI)
  qed
  have optw': "\<forall>k \<in> set (optimizer self). k < length (heap w')"
  proof
    fix k assume "k \<in> set (optimizer self)"
    with opt have "k < length (heap w)" by blast
    with lw' show "k < length (heap w')" by linarith
  qed
  from sp dc p3 lw' fw' carried optw' show ?thesis
    unfolding w2_def by blast
qed

lemma train_loop_snoc:
  "train_loop (Suc k) self t c bs ne w =
     (case train_loop k self t c bs ne w of
        None \<Rightarrow> None
      | Some (Inl e, w') \<Rightarrow> Some (Inl e, w')
      | Some (Inr c', w') \<Rightarrow> train_epoch self t c' bs ne w')"
proof (induction k arbitrary: c w)
  case 0
  show ?case by (simp split: option.splits sum.splits prod.splits)
next
  case (Suc k)
  show ?case
  proof (cases "train_epoch self t c bs ne w")
    case None
    then show ?thesis by simp
  next
    case (Some out)
    obtain res w1 where out: "out = (res, w1)" by (cases out)
    show ?thesis
    proof (cases res)
      case (Inl e)
      with Some out show ?thesis by simp
    next
      case (Inr c1)
      have "train_loop (Suc (Suc k)) self t c bs ne w = train_loop (Suc k) self t c1 bs ne w1"
        using Some out Inr by simp
      also have "\<dots> = (case train_loop k self t c1 bs ne w1 of
                          None \<Rightarrow> None
                        | Some (Inl e, w') \<Rightarrow> Some (Inl e, w')
                        | Some (Inr c', w') \<Rightarrow> train_epoch self t c' bs ne w')"
        by (rule Suc.IH)
      also have "train_loop k self t c1 bs ne w1 = train_loop (Suc k) self t c bs ne w"
        using Some out Inr by simp
      finally show ?thesis .
    qed
  qed
qed

lemma train_loop_valid:
  assumes cur: "c < length (heap w)"
    and opt: "\<forall>k \<in> set (optimizer self). k < length (heap w)"
    and run: "train_loop k self t c bs ne w = Some (Inr c', w')"
  shows "c' < length (heap w') \<and> (\<forall>k \<in> set (optimizer self). k < length (heap w'))"
  using cur opt run
proof (induction k arbitrary: c w)
  case 0
  then show ?case by simp
next
  case (Suc k)
  from Suc.prems(3) obtain c1 w1 where
    ep: "train_epoch self t c bs ne w = Some (Inr c1, w1)"
    and rest: "train_loop k self t c1 bs ne w1 = Some (Inr c', w')"
    by (auto split: option.splits sum.splits)
  from train_epoch_frame [OF Suc.prems(1) Suc.prems(2) ep]
  have "c1 < length (heap w1)" "\<forall>k \<in> set (optimizer self). k < length (heap w1)"
    by blast+
  from Suc.IH [OF this rest] show ?case .
qed

text \<open>
  C8. Take any run of \<^verbatim>\<open>train\<close> that starts with valid handles (the given network and
  the optimizer's networks exist in the store), and any epoch of it: the epoch that follows
  \<open>k\<close> completed ones and starts with the current network in the world \<open>wk\<close>. Then
  \<^verbatim>\<open>old_network\<close> is a new object holding the pre-training contents of the current
  network; retraining leaves that object as it is, and so does the arena. The handle the
  epoch returns is the current network or the snapshot, and when it is not the current
  network it is the snapshot, with the pre-training contents. That result is what
  \<^verbatim>\<open>train\<close> carries on: it is the outcome of \<open>k + 1\<close> epochs, the next epoch runs on
  the returned handle in the world the arena left, and after the last epoch it is what
  \<^verbatim>\<open>train\<close> returns.
\<close>

theorem train_every_epoch_incumbent:
  assumes cur: "neural_network < length (heap w)"
    and opt: "\<forall>k \<in> set (optimizer self). k < length (heap w)"
    and start: "train_loop k self t neural_network train_batch_size num_episodes w
                  = Some (Inr current_network, wk)"
    and epoch: "train_epoch self t current_network train_batch_size num_episodes wk
                  = Some (res, wk')"
  shows "current_network < length (heap wk)
       \<and> (\<exists>train_episodes w1.
             self_play self t current_network num_episodes wk = Some (train_episodes, w1)
           \<and> deepcopy current_network w1
               = (length (heap wk), w1\<lparr>heap := heap wk @ [heap wk ! current_network]\<rparr>)
           \<and> heap (snd (retrain_nn self t current_network train_episodes train_batch_size
                           (snd (deepcopy current_network w1)))) ! length (heap wk)
               = heap wk ! current_network)
       \<and> heap wk' ! length (heap wk) = heap wk ! current_network
       \<and> (\<forall>next. res = Inr next \<longrightarrow>
             (next = current_network \<or> next = length (heap wk))
           \<and> next < length (heap wk')
           \<and> (next \<noteq> current_network \<longrightarrow> heap wk' ! next = heap wk ! current_network))
       \<and> train_loop (Suc k) self t neural_network train_batch_size num_episodes w
           = Some (res, wk')
       \<and> train_loop (Suc (Suc k)) self t neural_network train_batch_size num_episodes w
           = (case res of
                Inl e \<Rightarrow> Some (Inl e, wk')
              | Inr next \<Rightarrow> train_epoch self t next train_batch_size num_episodes wk')
       \<and> (Suc k = nat num_epochs
            \<longrightarrow> train self t neural_network train_batch_size num_epochs num_episodes w
                  = Some (res, wk'))"
proof -
  from train_loop_valid [OF cur opt start]
  have curk: "current_network < length (heap wk)"
    and optk: "\<forall>k \<in> set (optimizer self). k < length (heap wk)"
    by blast+
  from train_epoch_frame [OF curk optk epoch]
  have frame: "\<exists>train_episodes w1.
             self_play self t current_network num_episodes wk = Some (train_episodes, w1)
           \<and> deepcopy current_network w1
               = (length (heap wk), w1\<lparr>heap := heap wk @ [heap wk ! current_network]\<rparr>)
           \<and> heap (snd (retrain_nn self t current_network train_episodes train_batch_size
                           (snd (deepcopy current_network w1)))) ! length (heap wk)
               = heap wk ! current_network"
    and snap: "heap wk' ! length (heap wk) = heap wk ! current_network"
    and carried: "\<forall>next. res = Inr next \<longrightarrow>
             (next = current_network \<or> next = length (heap wk))
           \<and> next < length (heap wk')
           \<and> (next \<noteq> current_network \<longrightarrow> heap wk' ! next = heap wk ! current_network)"
    by blast+
  have one: "train_loop (Suc k) self t neural_network train_batch_size num_episodes w
               = Some (res, wk')"
    by (simp only: train_loop_snoc [of k] start epoch option.case prod.case sum.case)
  have two: "train_loop (Suc (Suc k)) self t neural_network train_batch_size num_episodes w
           = (case res of
                Inl e \<Rightarrow> Some (Inl e, wk')
              | Inr next \<Rightarrow> train_epoch self t next train_batch_size num_episodes wk')"
    by (simp only: train_loop_snoc [of "Suc k"] one option.case prod.case)
  have fin: "Suc k = nat num_epochs
            \<longrightarrow> train self t neural_network train_batch_size num_epochs num_episodes w
                  = Some (res, wk')"
  proof
    assume "Suc k = nat num_epochs"
    then show "train self t neural_network train_batch_size num_epochs num_episodes w
                  = Some (res, wk')"
      using one by (simp only: train_def)
  qed
  from curk frame snap carried one two fin show ?thesis by (intro conjI)
qed

theorem train_every_epoch_incumbent_witness:
  "(0::nat) < length (heap (toy_world [1, 0]))
   \<and> optimizer toy_agent = [0]
   \<and> train_loop 0 toy_agent toy_torch 0 2 1 (toy_world [1, 0]) = Some (Inr 0, toy_world [1, 0])
   \<and> train_epoch toy_agent toy_torch 0 2 1 (toy_world [1, 0])
       = Some (Inr 2, \<lparr>heap = [[8 / 10, 2 / 10], [8 / 10, 2 / 10], [2 / 10, 8 / 10]],
                       hidden = []\<rparr>)
   \<and> heap (toy_world [1, 0]) ! 0 = [2 / 10, 8 / 10]
   \<and> heap \<lparr>heap = [[8 / 10, 2 / 10], [8 / 10, 2 / 10], [2 / 10, 8 / 10 :: real]],
            hidden = [] :: nat list\<rparr> ! 0
       = [8 / 10, 2 / 10]
   \<and> heap \<lparr>heap = [[8 / 10, 2 / 10], [8 / 10, 2 / 10], [2 / 10, 8 / 10 :: real]],
            hidden = [] :: nat list\<rparr> ! length (heap (toy_world [1, 0]))
       = heap (toy_world [1, 0]) ! 0
   \<and> train_loop (Suc 0) toy_agent toy_torch 0 2 1 (toy_world [1, 0])
       = Some (Inr 2, \<lparr>heap = [[8 / 10, 2 / 10], [8 / 10, 2 / 10], [2 / 10, 8 / 10]],
                       hidden = []\<rparr>)
   \<and> train_loop (Suc (Suc 0)) toy_agent toy_torch 0 2 1 (toy_world [1, 0])
       = train_epoch toy_agent toy_torch 2 2 1
           \<lparr>heap = [[8 / 10, 2 / 10], [8 / 10, 2 / 10], [2 / 10, 8 / 10]], hidden = []\<rparr>
   \<and> train toy_agent toy_torch 0 2 1 1 (toy_world [1, 0])
       = Some (Inr 2, \<lparr>heap = [[8 / 10, 2 / 10], [8 / 10, 2 / 10], [2 / 10, 8 / 10]],
                       hidden = []\<rparr>)"
proof -
  let ?w1 = "\<lparr>heap = [[8 / 10, 2 / 10], [8 / 10, 2 / 10], [2 / 10, 8 / 10 :: real]],
              hidden = [] :: nat list\<rparr>"
  have cur: "(0::nat) < length (heap (toy_world [1, 0]))"
    by (simp add: toy_world_def)
  have opt: "\<forall>k \<in> set (optimizer toy_agent). k < length (heap (toy_world [1, 0]))"
    by (simp add: toy_agent_def toy_world_def)
  have opt': "optimizer toy_agent = [0]"
    by (simp add: toy_agent_def)
  have start: "train_loop 0 toy_agent toy_torch 0 2 1 (toy_world [1, 0])
                 = Some (Inr 0, toy_world [1, 0])"
    by simp
  have epoch: "train_epoch toy_agent toy_torch 0 2 1 (toy_world [1, 0]) = Some (Inr 2, ?w1)"
    by code_simp
  have pre: "heap (toy_world [1, 0]) ! 0 = [2 / 10, 8 / 10]"
    by (simp add: toy_world_def)
  have one: "(Suc 0) = nat 1" by simp
  from train_every_epoch_incumbent [OF cur opt start epoch, of 1]
  have snap: "heap ?w1 ! length (heap (toy_world [1, 0])) = heap (toy_world [1, 0]) ! 0"
    and l1: "train_loop (Suc 0) toy_agent toy_torch 0 2 1 (toy_world [1, 0])
               = Some (Inr 2, ?w1)"
    and l2: "train_loop (Suc (Suc 0)) toy_agent toy_torch 0 2 1 (toy_world [1, 0])
               = (case (Inr 2 :: py_error + nat) of
                    Inl e \<Rightarrow> Some (Inl e, ?w1)
                  | Inr next \<Rightarrow> train_epoch toy_agent toy_torch next 2 1 ?w1)"
    and tr: "Suc 0 = nat 1 \<longrightarrow> train toy_agent toy_torch 0 2 1 1 (toy_world [1, 0])
               = Some (Inr 2, ?w1)"
    by blast+
  have l2': "train_loop (Suc (Suc 0)) toy_agent toy_torch 0 2 1 (toy_world [1, 0])
               = train_epoch toy_agent toy_torch 2 2 1 ?w1"
    using l2 by (simp only: sum.case)
  have tr': "train toy_agent toy_torch 0 2 1 1 (toy_world [1, 0]) = Some (Inr 2, ?w1)"
    using tr one by blast
  have post: "heap ?w1 ! 0 = [8 / 10, 2 / 10]" by simp
  from cur opt' start epoch pre post snap l1 l2' tr' show ?thesis by (intro conjI)
qed

section \<open>Properties of the batcher\<close>

lemma torch_tensor_cases:
  "torch_tensor shape rows =
     (if \<forall>a \<in> set rows. \<forall>b \<in> set rows. shape a = shape b then Inr rows else Inl ValueError)"
proof (cases rows)
  case Nil
  then show ?thesis by (simp add: torch_tensor_def)
next
  case (Cons x xs)
  have "(\<forall>a \<in> set rows. \<forall>b \<in> set rows. shape a = shape b)
          \<longleftrightarrow> (\<forall>y \<in> set xs. shape y = shape x)"
  proof
    assume all: "\<forall>a \<in> set rows. \<forall>b \<in> set rows. shape a = shape b"
    show "\<forall>y \<in> set xs. shape y = shape x"
    proof
      fix y assume "y \<in> set xs"
      then have "y \<in> set rows" "x \<in> set rows" by (simp_all add: Cons)
      with all show "shape y = shape x" by blast
    qed
  next
    assume first: "\<forall>y \<in> set xs. shape y = shape x"
    have "shape a = shape x" if "a \<in> set rows" for a
      using that first by (auto simp: Cons)
    then show "\<forall>a \<in> set rows. \<forall>b \<in> set rows. shape a = shape b"
      by metis
  qed
  then have "list_all (\<lambda>y. shape y = shape x) xs
          \<longleftrightarrow> (\<forall>a \<in> set rows. \<forall>b \<in> set rows. shape a = shape b)"
    by (simp only: list_all_iff)
  then show ?thesis
    by (simp only: torch_tensor_def Cons list.case)
qed

lemma batch_indices_concat:
  "0 < n \<Longrightarrow> concat (batch_indices n idxs) = idxs"
proof (induction n idxs rule: batch_indices.induct)
  case (1 n idxs)
  show ?case
  proof (cases "idxs = []")
    case True
    then show ?thesis by (subst batch_indices.simps) simp
  next
    case False
    with 1 show ?thesis
      by (subst batch_indices.simps) simp
  qed
qed

lemma batch_indices_nth:
  "0 < n \<Longrightarrow> k < length (batch_indices n idxs)
     \<Longrightarrow> batch_indices n idxs ! k = take n (drop (k * n) idxs) \<and> k * n < length idxs"
proof (induction n idxs arbitrary: k rule: batch_indices.induct)
  case (1 n idxs)
  show ?case
  proof (cases "idxs = []")
    case True
    have "batch_indices n idxs = []"
      using True by (subst batch_indices.simps) simp
    with "1.prems" show ?thesis by simp
  next
    case False
    have unf: "batch_indices n idxs = take n idxs # batch_indices n (drop n idxs)"
      using False "1.prems"(1) by (subst batch_indices.simps) simp
    show ?thesis
    proof (cases k)
      case 0
      with unf False show ?thesis by simp
    next
      case (Suc k')
      with "1.prems"(2) unf have "k' < length (batch_indices n (drop n idxs))" by simp
      from "1.IH" [OF _ "1.prems"(1) this] False "1.prems"(1)
      have ih: "batch_indices n (drop n idxs) ! k' = take n (drop (k' * n) (drop n idxs))"
        and lt: "k' * n < length (drop n idxs)"
        by simp_all
      from lt have "Suc k' * n < length idxs" by simp
      moreover have "batch_indices n idxs ! k = take n (drop (k * n) idxs)"
        using unf Suc ih by (simp add: add.commute)
      ultimately show ?thesis using Suc by simp
    qed
  qed
qed

lemma batch_rows_collate:
  assumes "\<forall>i \<in> set idxs. i < length train_data"
  shows "batch_rows (collate \<lparr>states_tensor = map fst train_data,
                              policies_tensor = map (\<lambda>e. fst (snd e)) train_data,
                              results_tensor = map (\<lambda>e. snd (snd e)) train_data,
                              batch_size = bs\<rparr> idxs)
           = map (\<lambda>i. train_data ! i) idxs"
  using assms
  by (induction idxs) (simp_all add: batch_rows_def collate_def)

lemma batch_episodes_ok:
  assumes ne: "train_data \<noteq> []"
    and bs: "1 \<le> batch_sz"
    and pol: "\<forall>e \<in> set train_data. \<forall>e' \<in> set train_data.
                length (fst (snd e)) = length (fst (snd e'))"
    and st: "\<forall>e \<in> set train_data. \<forall>e' \<in> set train_data.
                state_shape (game self) (fst e) = state_shape (game self) (fst e')"
  shows "batch_episodes self train_data batch_sz
           = Inr \<lparr>states_tensor = map fst train_data,
                  policies_tensor = map (\<lambda>e. fst (snd e)) train_data,
                  results_tensor = map (\<lambda>e. snd (snd e)) train_data,
                  batch_size = batch_sz\<rparr>"
proof -
  have cs: "\<forall>a \<in> set (map fst train_data). \<forall>b \<in> set (map fst train_data).
              state_shape (game self) a = state_shape (game self) b"
  proof (intro ballI)
    fix a b
    assume "a \<in> set (map fst train_data)" "b \<in> set (map fst train_data)"
    then obtain e e' where "e \<in> set train_data" "e' \<in> set train_data"
      "a = fst e" "b = fst e'" by auto
    with st show "state_shape (game self) a = state_shape (game self) b" by blast
  qed
  have cp: "\<forall>a \<in> set (map (\<lambda>e. fst (snd e)) train_data).
            \<forall>b \<in> set (map (\<lambda>e. fst (snd e)) train_data). [length a] = [length b]"
  proof (intro ballI)
    fix a b
    assume "a \<in> set (map (\<lambda>e. fst (snd e)) train_data)"
      "b \<in> set (map (\<lambda>e. fst (snd e)) train_data)"
    then obtain e e' where "e \<in> set train_data" "e' \<in> set train_data"
      "a = fst (snd e)" "b = fst (snd e')" by auto
    with pol show "[length a] = [length b]" by blast
  qed
  have s: "torch_tensor (state_shape (game self)) (map fst train_data)
             = Inr (map fst train_data)"
    by (simp only: torch_tensor_cases if_P [OF cs])
  have p: "torch_tensor (\<lambda>p. [length p]) (map (\<lambda>e. fst (snd e)) train_data)
             = Inr (map (\<lambda>e. fst (snd e)) train_data)"
    by (simp only: torch_tensor_cases if_P [OF cp])
  have r: "torch_tensor (\<lambda>v. []) (map (\<lambda>e. snd (snd e)) train_data)
             = Inr (map (\<lambda>e. snd (snd e)) train_data)"
    by (simp add: torch_tensor_cases)
  show ?thesis
    using ne bs by (simp add: batch_episodes_def Let_def s p r)
qed

lemma collate_lengths:
  "length (fst (collate dl idxs)) = length idxs
   \<and> length (fst (snd (collate dl idxs))) = length idxs
   \<and> length (snd (snd (collate dl idxs))) = length idxs"
  by (simp add: collate_def)

text \<open>
  C5. If two examples of the list have policy targets of different lengths, then
  \<^verbatim>\<open>batch_episodes\<close> raises \<^verbatim>\<open>ValueError\<close> and builds no loader, for every batch
  size.
\<close>

theorem batch_episodes_ragged_policies:
  assumes i: "i < length train_data" and j: "j < length train_data"
    and diff: "length (fst (snd (train_data ! i))) \<noteq> length (fst (snd (train_data ! j)))"
  shows "batch_episodes self train_data batch_sz = Inl ValueError"
proof -
  let ?policies = "map (\<lambda>e. fst (snd e)) train_data"
  have "?policies ! i \<in> set ?policies" "?policies ! j \<in> set ?policies"
    using i j by (simp_all only: nth_mem length_map)
  moreover have "[length (?policies ! i)] \<noteq> [length (?policies ! j)]"
    using i j diff by simp
  ultimately have "\<not> (\<forall>a \<in> set ?policies. \<forall>b \<in> set ?policies. [length a] = [length b])"
    by blast
  then have pol: "torch_tensor (\<lambda>p. [length p]) ?policies = Inl ValueError"
    by (simp only: torch_tensor_cases if_False)
  have ne: "train_data \<noteq> []" using i by auto
  show ?thesis
  proof (cases "torch_tensor (state_shape (game self)) (map fst train_data)")
    case (Inl e)
    then have "e = ValueError"
      by (simp add: torch_tensor_cases split: if_splits)
    with Inl ne show ?thesis by (simp add: batch_episodes_def Let_def)
  next
    case (Inr st)
    with pol ne show ?thesis by (simp add: batch_episodes_def Let_def)
  qed
qed

theorem batch_episodes_ragged_policies_witness:
  "(0::nat) < length ([([0, 0], [1, 0], 1), ([1, 0], [0, 1, 3], 1)] :: (int list \<times> real list \<times> real) list)
   \<and> (1::nat) < length ([([0, 0], [1, 0], 1), ([1, 0], [0, 1, 3], 1)] :: (int list \<times> real list \<times> real) list)
   \<and> length (fst (snd (([([0, 0], [1, 0], 1), ([1, 0], [0, 1, 3], 1)] :: (int list \<times> real list \<times> real) list) ! 0))) \<noteq> length (fst (snd (([([0, 0], [1, 0], 1), ([1, 0], [0, 1, 3], 1)] :: (int list \<times> real list \<times> real) list) ! 1)))
   \<and> batch_episodes toy_agent ([([0, 0], [1, 0], 1), ([1, 0], [0, 1, 3], 1)] :: (int list \<times> real list \<times> real) list) 2 = Inl ValueError"
proof -
  have d: "length (fst (snd (([([0, 0], [1, 0], 1), ([1, 0], [0, 1, 3], 1)] :: (int list \<times> real list \<times> real) list) ! 0))) \<noteq> length (fst (snd (([([0, 0], [1, 0], 1), ([1, 0], [0, 1, 3], 1)] :: (int list \<times> real list \<times> real) list) ! 1)))"
    by simp
  have i: "(0::nat) < length ([([0, 0], [1, 0], 1), ([1, 0], [0, 1, 3], 1)] :: (int list \<times> real list \<times> real) list)"
    and j: "(1::nat) < length ([([0, 0], [1, 0], 1), ([1, 0], [0, 1, 3], 1)] :: (int list \<times> real list \<times> real) list)"
    by simp_all
  from batch_episodes_ragged_policies [OF i j d, of toy_agent 2] show ?thesis by simp
qed

text \<open>
  C4, as stated, fails. The two examples below have policy targets of one length and the
  batch size is positive, but their states have different array shapes, so the conversion
  of the states raises \<^verbatim>\<open>ValueError\<close> and no mini-batch is produced.
\<close>

theorem batch_episodes_ragged_states:
  "([([0], [1, 0], 1), ([1, 0], [0, 1], 1)] :: (int list \<times> real list \<times> real) list) \<noteq> []
   \<and> length (fst (snd (([([0], [1, 0], 1), ([1, 0], [0, 1], 1)] :: (int list \<times> real list \<times> real) list) ! 0))) = length (fst (snd (([([0], [1, 0], 1), ([1, 0], [0, 1], 1)] :: (int list \<times> real list \<times> real) list) ! 1)))
   \<and> (1::int) \<le> 2
   \<and> state_shape (game toy_agent) (fst (([([0], [1, 0], 1), ([1, 0], [0, 1], 1)] :: (int list \<times> real list \<times> real) list) ! 0)) \<noteq> state_shape (game toy_agent) (fst (([([0], [1, 0], 1), ([1, 0], [0, 1], 1)] :: (int list \<times> real list \<times> real) list) ! 1))
   \<and> batch_episodes toy_agent ([([0], [1, 0], 1), ([1, 0], [0, 1], 1)] :: (int list \<times> real list \<times> real) list) 2 = Inl ValueError"
  by (simp add: batch_episodes_def torch_tensor_def toy_agent_def toy_game_def)

text \<open>
  C4, amended. For a non-empty list of examples whose policy targets have one length and
  whose states have one array shape, and a batch size of at least one, the loader is built,
  and for every order \<open>perm\<close> in which the sampler visits the rows (a permutation of the
  row indices): the rows of all mini-batches together are exactly the input examples, each
  once; the batch sizes add up to the input count; the \<open>k\<close>-th mini-batch has
  \<open>min batch_size (count - k * batch_size)\<close> rows in each of its three fields; and the
  state, policy and outcome at one position of a mini-batch are those of one input example.
\<close>

theorem batch_episodes_partition:
  assumes ne: "train_data \<noteq> []"
    and bs: "1 \<le> batch_sz"
    and pol: "\<forall>e \<in> set train_data. \<forall>e' \<in> set train_data.
                length (fst (snd e)) = length (fst (snd e'))"
    and st: "\<forall>e \<in> set train_data. \<forall>e' \<in> set train_data.
                state_shape (game self) (fst e) = state_shape (game self) (fst e')"
    and perm: "mset perm = mset [0..<length train_data]"
  shows "\<exists>dl. batch_episodes self train_data batch_sz = Inr dl
         \<and> mset (concat (map batch_rows (dataloader_iter dl perm))) = mset train_data
         \<and> sum_list (map (\<lambda>b. length (fst b)) (dataloader_iter dl perm)) = length train_data
         \<and> (\<forall>k < length (dataloader_iter dl perm).
               length (fst (dataloader_iter dl perm ! k))
                 = min (nat batch_sz) (length train_data - k * nat batch_sz)
             \<and> 0 < length (fst (dataloader_iter dl perm ! k))
             \<and> length (fst (snd (dataloader_iter dl perm ! k)))
                 = length (fst (dataloader_iter dl perm ! k))
             \<and> length (snd (snd (dataloader_iter dl perm ! k)))
                 = length (fst (dataloader_iter dl perm ! k))
             \<and> (\<forall>i < length (fst (dataloader_iter dl perm ! k)).
                   (fst (dataloader_iter dl perm ! k) ! i,
                    fst (snd (dataloader_iter dl perm ! k)) ! i,
                    snd (snd (dataloader_iter dl perm ! k)) ! i) \<in> set train_data))"
proof -
  define dl where "dl = \<lparr>states_tensor = map fst train_data,
                  policies_tensor = map (\<lambda>e. fst (snd e)) train_data,
                  results_tensor = map (\<lambda>e. snd (snd e)) train_data,
                  batch_size = batch_sz\<rparr>"
  define n where "n = nat batch_sz"
  define chunks where "chunks = batch_indices n perm"
  have n0: "0 < n" using bs by (simp add: n_def)
  have ok: "batch_episodes self train_data batch_sz = Inr dl"
    unfolding dl_def by (rule batch_episodes_ok [OF ne bs pol st])
  have it: "dataloader_iter dl perm = map (collate dl) chunks"
    by (simp add: dataloader_iter_def chunks_def n_def dl_def)
  have len_perm: "length perm = length train_data"
    using perm by (metis size_mset length_upt diff_zero)
  have set_perm: "set perm = {0..<length train_data}"
    using perm by (metis set_mset_mset set_upt)
  have cc: "concat chunks = perm"
    unfolding chunks_def by (rule batch_indices_concat [OF n0])
  have in_range: "\<forall>c \<in> set chunks. \<forall>i \<in> set c. i < length train_data"
  proof (intro ballI)
    fix c i assume "c \<in> set chunks" "i \<in> set c"
    then have "i \<in> set (concat chunks)" by auto
    then show "i < length train_data" using cc set_perm by simp
  qed
  have rows: "batch_rows (collate dl c) = map (\<lambda>i. train_data ! i) c" if "c \<in> set chunks" for c
    unfolding dl_def using in_range that by (intro batch_rows_collate) blast
  have "concat (map batch_rows (dataloader_iter dl perm))
          = concat (map (map (\<lambda>i. train_data ! i)) chunks)"
    unfolding it using rows by (simp add: map_concat cong: map_cong)
  also have "\<dots> = map (\<lambda>i. train_data ! i) (concat chunks)"
    by (simp add: map_concat)
  finally have flat: "concat (map batch_rows (dataloader_iter dl perm))
                        = map (\<lambda>i. train_data ! i) perm"
    using cc by simp
  have "mset (map (\<lambda>i. train_data ! i) perm)
          = image_mset (\<lambda>i. train_data ! i) (mset [0..<length train_data])"
    using perm by (metis mset_map)
  also have "\<dots> = mset (map (\<lambda>i. train_data ! i) [0..<length train_data])"
    by simp
  also have "\<dots> = mset train_data"
    by (simp only: map_nth)
  finally have count: "mset (concat (map batch_rows (dataloader_iter dl perm))) = mset train_data"
    using flat by simp
  have "sum_list (map (\<lambda>b. length (fst b)) (dataloader_iter dl perm))
          = sum_list (map length chunks)"
    unfolding it by (simp add: comp_def collate_lengths)
  also have "\<dots> = length (concat chunks)"
    by (simp add: length_concat)
  finally have total: "sum_list (map (\<lambda>b. length (fst b)) (dataloader_iter dl perm))
                         = length train_data"
    using cc len_perm by simp
  have per_batch:
    "length (fst (dataloader_iter dl perm ! k))
                 = min n (length train_data - k * n)
             \<and> 0 < length (fst (dataloader_iter dl perm ! k))
             \<and> length (fst (snd (dataloader_iter dl perm ! k)))
                 = length (fst (dataloader_iter dl perm ! k))
             \<and> length (snd (snd (dataloader_iter dl perm ! k)))
                 = length (fst (dataloader_iter dl perm ! k))
             \<and> (\<forall>i < length (fst (dataloader_iter dl perm ! k)).
                   (fst (dataloader_iter dl perm ! k) ! i,
                    fst (snd (dataloader_iter dl perm ! k)) ! i,
                    snd (snd (dataloader_iter dl perm ! k)) ! i) \<in> set train_data)"
    if k: "k < length (dataloader_iter dl perm)" for k
  proof -
    have kc: "k < length chunks" using k it by simp
    have b: "dataloader_iter dl perm ! k = collate dl (chunks ! k)"
      using kc it by simp
    from batch_indices_nth [OF n0, of k perm] kc
    have ck: "chunks ! k = take n (drop (k * n) perm)" and lt: "k * n < length perm"
      by (simp_all add: chunks_def)
    have lc: "length (chunks ! k) = min n (length train_data - k * n)"
      using ck len_perm by (simp add: min.commute)
    have pos: "0 < length (chunks ! k)"
      using lc lt len_perm n0 by simp
    have mem: "chunks ! k \<in> set chunks" using kc by simp
    have rk: "batch_rows (collate dl (chunks ! k)) = map (\<lambda>i. train_data ! i) (chunks ! k)"
      by (rule rows [OF mem])
    have row_in: "(fst (collate dl (chunks ! k)) ! i,
                    fst (snd (collate dl (chunks ! k))) ! i,
                    snd (snd (collate dl (chunks ! k))) ! i) \<in> set train_data"
      if i: "i < length (chunks ! k)" for i
    proof -
      have "batch_rows (collate dl (chunks ! k)) ! i
              = (fst (collate dl (chunks ! k)) ! i,
                 fst (snd (collate dl (chunks ! k))) ! i,
                 snd (snd (collate dl (chunks ! k))) ! i)"
        using i collate_lengths [of dl "chunks ! k"] by (simp add: batch_rows_def)
      moreover have "batch_rows (collate dl (chunks ! k)) ! i = train_data ! (chunks ! k ! i)"
        using i rk by simp
      moreover have "chunks ! k ! i < length train_data"
        using in_range mem i by (meson nth_mem)
      ultimately show ?thesis by (metis nth_mem)
    qed
    show ?thesis
      unfolding b using lc pos collate_lengths [of dl "chunks ! k"] row_in by simp
  qed
  from ok count total per_batch show ?thesis
    unfolding n_def by blast
qed

theorem batch_episodes_partition_witness:
  "toy_batch_examples \<noteq> []
   \<and> (1::int) \<le> 2
   \<and> map (\<lambda>e. length (fst (snd e))) toy_batch_examples = [2, 2, 2]
   \<and> map (\<lambda>e. state_shape (game toy_agent) (fst e)) toy_batch_examples = [[2], [2], [2]]
   \<and> mset [2, 1, 0] = mset [0..<length toy_batch_examples]
   \<and> (\<exists>dl. batch_episodes toy_agent toy_batch_examples 2 = Inr dl
         \<and> dataloader_iter dl [2, 1, 0]
             = [([[1, 2], [1, 0]], [[0, 1], [0, 1]], [- 1, 1]), ([[0, 0]], [[1, 0]], [1])]
         \<and> mset (concat (map batch_rows (dataloader_iter dl [2, 1, 0])))
             = mset toy_batch_examples
         \<and> sum_list (map (\<lambda>b. length (fst b)) (dataloader_iter dl [2, 1, 0]))
             = length toy_batch_examples)"
proof -
  have ne: "toy_batch_examples \<noteq> []"
    by (simp add: toy_batch_examples_def)
  have bs: "(1::int) \<le> 2" by simp
  have pol: "\<forall>e \<in> set toy_batch_examples. \<forall>e' \<in> set toy_batch_examples.
               length (fst (snd e)) = length (fst (snd e'))"
    by (simp add: toy_batch_examples_def)
  have st: "\<forall>e \<in> set toy_batch_examples. \<forall>e' \<in> set toy_batch_examples.
              state_shape (game toy_agent) (fst e) = state_shape (game toy_agent) (fst e')"
    by (simp add: toy_batch_examples_def toy_agent_def toy_game_def)
  have perm: "mset [2, 1, 0] = mset [0..<length toy_batch_examples]"
    by (simp add: toy_batch_examples_def upt_rec add.commute)
  have run: "batch_episodes toy_agent toy_batch_examples 2
               = Inr \<lparr>states_tensor = [[0, 0], [1, 0], [1, 2]],
                      policies_tensor = [[1, 0], [0, 1], [0, 1]],
                      results_tensor = [1, 1, - 1], batch_size = 2\<rparr>"
    by (simp add: batch_episodes_def torch_tensor_def toy_batch_examples_def toy_agent_def
                  toy_game_def)
  have it: "dataloader_iter \<lparr>states_tensor = [[0, 0], [1, 0], [1, 2 :: int]],
                      policies_tensor = [[1, 0], [0, 1], [0, 1]],
                      results_tensor = [1, 1, - 1], batch_size = 2\<rparr> [2, 1, 0]
              = [([[1, 2], [1, 0]], [[0, 1], [0, 1]], [- 1, 1]), ([[0, 0]], [[1, 0]], [1])]"
    by code_simp
  from batch_episodes_partition [OF ne bs pol st perm] obtain dl where
    d: "batch_episodes toy_agent toy_batch_examples 2 = Inr dl"
    and m: "mset (concat (map batch_rows (dataloader_iter dl [2, 1, 0])))
              = mset toy_batch_examples"
    and c: "sum_list (map (\<lambda>b. length (fst b)) (dataloader_iter dl [2, 1, 0]))
              = length toy_batch_examples"
    by blast
  from d run it have i: "dataloader_iter dl [2, 1, 0]
             = [([[1, 2], [1, 0]], [[0, 1], [0, 1]], [- 1, 1]), ([[0, 0]], [[1, 0]], [1])]"
    by simp
  have pol': "map (\<lambda>e. length (fst (snd e))) toy_batch_examples = [2, 2, 2]"
    by (simp add: toy_batch_examples_def)
  have st': "map (\<lambda>e. state_shape (game toy_agent) (fst e)) toy_batch_examples
               = [[2], [2], [2]]"
    by (simp add: toy_batch_examples_def toy_agent_def toy_game_def)
  from ne bs pol' st' perm d i m c show ?thesis by blast
qed

end
